theory Spec2Isabelle
  imports Complex_Main "HOL-Library.Sublist" "HOL-Library.Monad_Syntax"
begin

section \<open>The fleet state server (fleet_state_server/main.go)\<close>

text \<open>
  The server receives UDP datagrams, keeps a list of timestamped locations per vehicle
  (keyed by VIN) and a list of subscriber addresses per VIN, and forwards every accepted
  location update, extended by a speed estimate, to the subscribers of that VIN.

  The embedding follows the Go source function by function. The two Go maps are HOL maps,
  slices are lists, and everything the program does to the outside world (lines written
  to stdout and stderr, sockets dialled, datagrams written) is returned as a list of
  events. A run-time panic of the Go program is the value \<open>None\<close>.
\<close>

subsection \<open>float64\<close>

text \<open>
  A \<open>float64\<close> is a real number, one of the two infinities, or NaN. Arithmetic on finite
  values is exact, except that a result that leaves the range of float64 becomes an
  infinity (\<open>overflow\<close>: a magnitude of \<open>2^1024 - 2^970\<close> or more rounds to an
  infinity). Rounding to 53 bits, underflow and the sign of zero are not modelled (a
  zero divisor is the positive zero). The special values follow IEEE 754 and the
  documented special cases of Go's \<open>math\<close> package.
\<close>

datatype float64 = Fin real | PInf | NInf | NaN

definition max_float64_bound :: real where
  "max_float64_bound = 2 ^ 1024 - 2 ^ 970"

definition overflow :: "real \<Rightarrow> float64" where
  "overflow r =
     (if max_float64_bound \<le> r then PInf
      else if r \<le> - max_float64_bound then NInf
      else Fin r)"

fun f_neg :: "float64 \<Rightarrow> float64" where
  "f_neg (Fin a) = Fin (- a)"
| "f_neg PInf = NInf"
| "f_neg NInf = PInf"
| "f_neg NaN = NaN"

fun f_add :: "float64 \<Rightarrow> float64 \<Rightarrow> float64" where
  "f_add (Fin a) (Fin b) = overflow (a + b)"
| "f_add NaN _ = NaN"
| "f_add _ NaN = NaN"
| "f_add PInf NInf = NaN"
| "f_add NInf PInf = NaN"
| "f_add PInf _ = PInf"
| "f_add _ PInf = PInf"
| "f_add NInf _ = NInf"
| "f_add _ NInf = NInf"

definition f_sub :: "float64 \<Rightarrow> float64 \<Rightarrow> float64" where
  "f_sub x y = f_add x (f_neg y)"

fun f_mul :: "float64 \<Rightarrow> float64 \<Rightarrow> float64" where
  "f_mul (Fin a) (Fin b) = overflow (a * b)"
| "f_mul NaN _ = NaN"
| "f_mul _ NaN = NaN"
| "f_mul (Fin a) y = (if a = 0 then NaN else if 0 < a then y else f_neg y)"
| "f_mul x (Fin b) = (if b = 0 then NaN else if 0 < b then x else f_neg x)"
| "f_mul x y = (if x = y then PInf else NInf)"

fun f_div :: "float64 \<Rightarrow> float64 \<Rightarrow> float64" where
  "f_div NaN _ = NaN"
| "f_div _ NaN = NaN"
| "f_div (Fin a) (Fin b) =
     (if b \<noteq> 0 then overflow (a / b)
      else if a = 0 then NaN else if 0 < a then PInf else NInf)"
| "f_div (Fin a) _ = Fin 0"
| "f_div x (Fin b) = (if 0 \<le> b then x else f_neg x)"
| "f_div _ _ = NaN"

fun f_lt :: "float64 \<Rightarrow> float64 \<Rightarrow> bool" where
  "f_lt (Fin a) (Fin b) = (a < b)"
| "f_lt NaN _ = False"
| "f_lt _ NaN = False"
| "f_lt _ NInf = False"
| "f_lt PInf _ = False"
| "f_lt _ _ = True"

text \<open>
  \<open>math.Sin\<close>, \<open>math.Cos\<close>, \<open>math.Sqrt\<close>, \<open>math.Atan2\<close> and \<open>math.Pow\<close>. The
  exponent of \<open>math.Pow\<close> is a natural number: the program only calls it with the
  constant 2.
\<close>

fun math_Sin :: "float64 \<Rightarrow> float64" where
  "math_Sin (Fin x) = Fin (sin x)"
| "math_Sin _ = NaN"

fun math_Cos :: "float64 \<Rightarrow> float64" where
  "math_Cos (Fin x) = Fin (cos x)"
| "math_Cos _ = NaN"

fun math_Sqrt :: "float64 \<Rightarrow> float64" where
  "math_Sqrt (Fin x) = (if x < 0 then NaN else Fin (sqrt x))"
| "math_Sqrt PInf = PInf"
| "math_Sqrt _ = NaN"

fun math_Pow :: "float64 \<Rightarrow> nat \<Rightarrow> float64" where
  "math_Pow (Fin x) n = overflow (x ^ n)"
| "math_Pow NaN n = (if n = 0 then Fin 1 else NaN)"
| "math_Pow PInf n = (if n = 0 then Fin 1 else PInf)"
| "math_Pow NInf n = (if n = 0 then Fin 1 else if odd n then NInf else PInf)"

fun math_Atan2 :: "float64 \<Rightarrow> float64 \<Rightarrow> float64" where
  "math_Atan2 NaN _ = NaN"
| "math_Atan2 _ NaN = NaN"
| "math_Atan2 (Fin y) (Fin x) =
     Fin (if x = 0 then (if 0 < y then pi / 2 else if y < 0 then - pi / 2 else 0)
          else if 0 < x then arctan (y / x)
          else if y = 0 then pi
          else if arctan (y / x) \<le> 0 then arctan (y / x) + pi
          else arctan (y / x) - pi)"
| "math_Atan2 PInf PInf = Fin (pi / 4)"
| "math_Atan2 NInf PInf = Fin (- pi / 4)"
| "math_Atan2 PInf NInf = Fin (3 * pi / 4)"
| "math_Atan2 NInf NInf = Fin (- 3 * pi / 4)"
| "math_Atan2 (Fin y) PInf = Fin 0"
| "math_Atan2 (Fin y) NInf = Fin (if 0 \<le> y then pi else - pi)"
| "math_Atan2 PInf (Fin x) = Fin (pi / 2)"
| "math_Atan2 NInf (Fin x) = Fin (- pi / 2)"

subsection \<open>Strings\<close>

text \<open>
  A Go string is a sequence of bytes, here a \<open>char list\<close>. \<open>strings.Split\<close> is given
  the separator as one byte: the program only splits at a single space. As in Go, two
  adjacent separators enclose an empty element and the result is never empty.
\<close>

definition strings_HasPrefix :: "string \<Rightarrow> string \<Rightarrow> bool" where
  "strings_HasPrefix s pre = (take (length pre) s = pre)"

fun split_from :: "string \<Rightarrow> string \<Rightarrow> char \<Rightarrow> string list" where
  "split_from acc [] sep = [acc]"
| "split_from acc (c # cs) sep =
     (if c = sep then acc # split_from [] cs sep else split_from (acc @ [c]) cs sep)"

definition strings_Split :: "string \<Rightarrow> char \<Rightarrow> string list" where
  "strings_Split s sep = split_from [] s sep"

subsection \<open>Decimal numbers: strconv.ParseFloat and the verb %.6f\<close>

text \<open>
  \<open>strconv.ParseFloat (s, 64)\<close> is modelled for the decimal forms
  \<open>[+-]digits[.digits][(e|E)[+-]digits]\<close> (at least one digit in the mantissa) and for
  the special values \<open>inf\<close>, \<open>infinity\<close> (optionally signed) and \<open>nan\<close>, in any
  letter case. A magnitude that rounds beyond the largest float64 is a range error.
  Hexadecimal mantissas and digit-separating underscores are not modelled and count as
  syntax errors here. The result is the exact decimal value.

  \<open>fmt_f6\<close> is \<open>fmt.Sprintf\<close>'s verb \<open>%.6f\<close>: six digits after the point, the
  value rounded half-to-even at the sixth digit; the special values print as \<open>+Inf\<close>,
  \<open>-Inf\<close> and \<open>NaN\<close>.
\<close>

definition digit_of :: "char \<Rightarrow> nat option" where
  "digit_of c = map_of (zip ''0123456789'' [0, 1, 2, 3, 4, 5, 6, 7, 8, 9]) c"

definition digit_char :: "nat \<Rightarrow> char" where
  "digit_char d = ''0123456789'' ! d"

fun dec_value :: "nat \<Rightarrow> string \<Rightarrow> nat option" where
  "dec_value acc [] = Some acc"
| "dec_value acc (c # cs) =
     (case digit_of c of None \<Rightarrow> None | Some d \<Rightarrow> dec_value (acc * 10 + d) cs)"

definition parse_nat :: "string \<Rightarrow> nat option" where
  "parse_nat s = (if s = [] then None else dec_value 0 s)"

function itoa :: "nat \<Rightarrow> string" where
  "itoa n = (if n < 10 then [digit_char n] else itoa (n div 10) @ [digit_char (n mod 10)])"
  by pat_completeness auto
termination
  by (relation "measure id") auto

declare itoa.simps [simp del]

definition pad_zeros :: "nat \<Rightarrow> string \<Rightarrow> string" where
  "pad_zeros w s = replicate (w - length s) CHR ''0'' @ s"

definition to_lower :: "char \<Rightarrow> char" where
  "to_lower c =
     (case map_of (zip ''ABCDEFGHIJKLMNOPQRSTUVWXYZ'' ''abcdefghijklmnopqrstuvwxyz'') c of
        None \<Rightarrow> c | Some l \<Rightarrow> l)"

definition strip_sign :: "string \<Rightarrow> bool \<times> string" where
  "strip_sign s =
     (case s of [] \<Rightarrow> (False, [])
      | c # r \<Rightarrow> if c = CHR ''-'' then (True, r) else if c = CHR ''+'' then (False, r) else (False, s))"

definition parse_special :: "string \<Rightarrow> float64 option" where
  "parse_special s =
     (let (neg, r) = strip_sign s; l = map to_lower r
      in if l = ''inf'' \<or> l = ''infinity'' then Some (if neg then NInf else PInf)
         else if map to_lower s = ''nan'' then Some NaN
         else None)"

definition parse_decimal :: "string \<Rightarrow> float64 option" where
  "parse_decimal s =
     (let (neg, body) = strip_sign s;
          mant = takeWhile (\<lambda>c. c \<noteq> CHR ''e'' \<and> c \<noteq> CHR ''E'') body;
          expo = dropWhile (\<lambda>c. c \<noteq> CHR ''e'' \<and> c \<noteq> CHR ''E'') body;
          ip = takeWhile (\<lambda>c. c \<noteq> CHR ''.'') mant;
          fp = drop 1 (dropWhile (\<lambda>c. c \<noteq> CHR ''.'') mant)
      in case parse_nat (ip @ fp) of
           None \<Rightarrow> None
         | Some m \<Rightarrow>
            (case (if expo = [] then Some (0::int)
                   else (let (eneg, ed) = strip_sign (drop 1 expo)
                         in map_option (\<lambda>e. if eneg then - int e else int e) (parse_nat ed))) of
               None \<Rightarrow> None
             | Some e \<Rightarrow>
                (let k = e - int (length fp);
                     v = (if 0 \<le> k then real m * 10 ^ nat k else real m / 10 ^ nat (- k))
                 in if max_float64_bound \<le> v then None
                    else Some (Fin (if neg then - v else v)))))"

definition strconv_ParseFloat :: "string \<Rightarrow> float64 option" where
  "strconv_ParseFloat s =
     (case parse_special s of Some f \<Rightarrow> Some f | None \<Rightarrow> parse_decimal s)"

definition round_half_even :: "real \<Rightarrow> nat" where
  "round_half_even x =
     (let f = \<lfloor>x\<rfloor>; d = x - of_int f
      in nat (if d < 1 / 2 then f else if 1 / 2 < d then f + 1
              else if even f then f else f + 1))"

fun fmt_f6 :: "float64 \<Rightarrow> string" where
  "fmt_f6 (Fin r) =
     (let n = round_half_even (\<bar>r\<bar> * 1000000)
      in (if r < 0 then ''-'' else '''') @ itoa (n div 1000000) @ ''.'' @
         pad_zeros 6 (itoa (n mod 1000000)))"
| "fmt_f6 PInf = ''+Inf''"
| "fmt_f6 NInf = ''-Inf''"
| "fmt_f6 NaN = ''NaN''"

subsection \<open>time.Time with the layout time.RFC3339Nano\<close>

text \<open>
  A \<open>time.Time\<close> obtained from \<open>time.Parse\<close> is kept as the civil date and clock
  reading that were parsed together with the zone offset in seconds east of UTC; the
  instant it denotes is \<open>unixNano\<close>. \<open>time_Parse_RFC3339Nano\<close> accepts
  \<open>YYYY-MM-DDTHH:MM:SS[(.|,)digits](Z|(+|-)HH:MM)\<close> with the fields in range, and
  keeps the first nine digits of the fraction; a text outside this form is rejected, also
  where a release of the Go library tolerates it (a one-digit hour, for instance).
  \<open>time_Format_RFC3339Nano\<close> is
  \<open>Format\<close> with the same layout, \<open>2006-01-02T15:04:05.999999999Z07:00\<close>: the nines
  of the layout drop the trailing zeros of the fraction, and the whole fraction when it
  is zero; the offset zero prints as \<open>Z\<close>.

  \<open>time_Sub\<close> is \<open>Time.Sub\<close>: the difference in nanoseconds as an int64
  \<open>Duration\<close>, saturated at the smallest and the largest duration.
  \<open>duration_Seconds\<close> is \<open>Duration.Seconds\<close>.
\<close>

record Time =
  year :: nat
  month :: nat
  day :: nat
  hour :: nat
  minute :: nat
  second :: nat
  nanosecond :: nat
  zoneOffset :: int

definition isLeap :: "nat \<Rightarrow> bool" where
  "isLeap y = (y mod 4 = 0 \<and> (y mod 100 \<noteq> 0 \<or> y mod 400 = 0))"

definition daysIn :: "nat \<Rightarrow> nat \<Rightarrow> nat" where
  "daysIn m y =
     (if m = 2 then (if isLeap y then 29 else 28)
      else if m = 4 \<or> m = 6 \<or> m = 9 \<or> m = 11 then 30 else 31)"

definition num_fixed :: "nat \<Rightarrow> string \<Rightarrow> (nat \<times> string) option" where
  "num_fixed n s =
     (if length s < n then None
      else map_option (\<lambda>v. (v, drop n s)) (parse_nat (take n s)))"

definition expect :: "char \<Rightarrow> string \<Rightarrow> string option" where
  "expect c s = (case s of [] \<Rightarrow> None | x # r \<Rightarrow> if x = c then Some r else None)"

definition parse_fraction :: "string \<Rightarrow> (nat \<times> string) option" where
  "parse_fraction s =
     (case s of
        c # d # r \<Rightarrow>
          if (c = CHR ''.'' \<or> c = CHR '','') \<and> digit_of d \<noteq> None then
            (let ds = takeWhile (\<lambda>x. digit_of x \<noteq> None) (d # r);
                 ds9 = take 9 ds
             in map_option (\<lambda>v. (v * 10 ^ (9 - length ds9), drop (length ds) (d # r)))
                  (parse_nat ds9))
          else Some (0, s)
      | _ \<Rightarrow> Some (0, s))"

definition parse_zone :: "string \<Rightarrow> (int \<times> string) option" where
  "parse_zone s =
     (case s of
        [] \<Rightarrow> None
      | c # r \<Rightarrow>
          if c = CHR ''Z'' then Some (0, r)
          else if c = CHR ''+'' \<or> c = CHR ''-'' then
            do {
              (hh, r1) \<leftarrow> num_fixed 2 r;
              r2 \<leftarrow> expect CHR '':'' r1;
              (mm, r3) \<leftarrow> num_fixed 2 r2;
              if 23 < hh \<or> 59 < mm then None
              else Some ((if c = CHR ''-'' then - 1 else 1) * (int hh * 60 + int mm) * 60, r3)
            }
          else None)"

definition time_Parse_RFC3339Nano :: "string \<Rightarrow> Time option" where
  "time_Parse_RFC3339Nano s =
     do {
       (y, s1) \<leftarrow> num_fixed 4 s;
       s2 \<leftarrow> expect CHR ''-'' s1;
       (mo, s3) \<leftarrow> num_fixed 2 s2;
       s4 \<leftarrow> expect CHR ''-'' s3;
       (d, s5) \<leftarrow> num_fixed 2 s4;
       s6 \<leftarrow> expect CHR ''T'' s5;
       (h, s7) \<leftarrow> num_fixed 2 s6;
       s8 \<leftarrow> expect CHR '':'' s7;
       (mi, s9) \<leftarrow> num_fixed 2 s8;
       s10 \<leftarrow> expect CHR '':'' s9;
       (sec, s11) \<leftarrow> num_fixed 2 s10;
       (ns, s12) \<leftarrow> parse_fraction s11;
       (off, s13) \<leftarrow> parse_zone s12;
       if s13 \<noteq> [] \<or> mo < 1 \<or> 12 < mo \<or> d < 1 \<or> daysIn mo y < d
          \<or> 23 < h \<or> 59 < mi \<or> 59 < sec
       then None
       else Some \<lparr>year = y, month = mo, day = d, hour = h, minute = mi, second = sec,
                  nanosecond = ns, zoneOffset = off\<rparr>
     }"

definition format_fraction :: "nat \<Rightarrow> string" where
  "format_fraction ns =
     (if ns = 0 then ''''
      else ''.'' @ rev (dropWhile (\<lambda>c. c = CHR ''0'') (rev (pad_zeros 9 (itoa ns)))))"

definition format_zone :: "int \<Rightarrow> string" where
  "format_zone off =
     (if off = 0 then ''Z''
      else (let zone = nat (\<bar>off\<bar> div 60)
            in (if off < 0 then ''-'' else ''+'') @ pad_zeros 2 (itoa (zone div 60)) @ '':'' @
               pad_zeros 2 (itoa (zone mod 60))))"

definition time_Format_RFC3339Nano :: "Time \<Rightarrow> string" where
  "time_Format_RFC3339Nano t =
     pad_zeros 4 (itoa (year t)) @ ''-'' @ pad_zeros 2 (itoa (month t)) @ ''-'' @
     pad_zeros 2 (itoa (day t)) @ ''T'' @ pad_zeros 2 (itoa (hour t)) @ '':'' @
     pad_zeros 2 (itoa (minute t)) @ '':'' @ pad_zeros 2 (itoa (second t)) @
     format_fraction (nanosecond t) @ format_zone (zoneOffset t)"

definition days_from_civil :: "nat \<Rightarrow> nat \<Rightarrow> nat \<Rightarrow> int" where
  "days_from_civil y m d =
     (let y' = (if m \<le> 2 then int y - 1 else int y);
          era = y' div 400;
          yoe = y' - era * 400;
          mp = (if 2 < m then int m - 3 else int m + 9);
          doy = (153 * mp + 2) div 5 + int d - 1;
          doe = yoe * 365 + yoe div 4 - yoe div 100 + doy
      in era * 146097 + doe - 719468)"

definition unixNano :: "Time \<Rightarrow> int" where
  "unixNano t =
     ((days_from_civil (year t) (month t) (day t) * 86400 + int (hour t) * 3600 +
       int (minute t) * 60 + int (second t) - zoneOffset t) * 1000000000 + int (nanosecond t))"

definition minDuration :: int where
  "minDuration = - (2 ^ 63)"

definition maxDuration :: int where
  "maxDuration = 2 ^ 63 - 1"

definition time_Sub :: "Time \<Rightarrow> Time \<Rightarrow> int" where
  "time_Sub t u =
     (let d = unixNano t - unixNano u
      in if d < minDuration then minDuration else if maxDuration < d then maxDuration else d)"

definition duration_Seconds :: "int \<Rightarrow> float64" where
  "duration_Seconds d = Fin (real_of_int d / 1000000000)"

subsection \<open>getDistance (lines 248-265)\<close>

definition earthRadius :: real where
  "earthRadius = 6371009"

definition getDistance :: "float64 \<Rightarrow> float64 \<Rightarrow> float64 \<Rightarrow> float64 \<Rightarrow> float64" where
  "getDistance lat1 long1 lat2 long2 =
     (let phi1 = f_div (f_mul lat1 (Fin pi)) (Fin 180);
          lambda1 = f_div (f_mul long1 (Fin pi)) (Fin 180);
          phi2 = f_div (f_mul lat2 (Fin pi)) (Fin 180);
          lambda2 = f_div (f_mul long2 (Fin pi)) (Fin 180);
          deltaPhi = f_sub phi2 phi1;
          deltaLambda = f_sub lambda2 lambda1;
          a = f_add (math_Pow (math_Sin (f_div deltaPhi (Fin 2))) 2)
                (f_mul (f_mul (math_Cos phi1) (math_Cos phi2))
                   (math_Pow (math_Sin (f_div deltaLambda (Fin 2))) 2));
          c = f_mul (Fin 2) (math_Atan2 (math_Sqrt a) (math_Sqrt (f_sub (Fin 1) a)))
      in f_mul (Fin earthRadius) c)"

subsection \<open>Server state and effects\<close>

text \<open>
  \<open>location\<close> is the struct of lines 37-41. A \<open>*net.UDPAddr\<close> is its host text and
  port. The events are what the program does to its environment: \<open>Stdout\<close> is the
  verbose log line of \<open>handlePacket\<close>, \<open>Stderr\<close> a diagnostic written with
  \<open>fmt.Fprintf (os.Stderr, ...)\<close>, \<open>DialUDP\<close> a call of \<open>net.DialUDP\<close>, and
  \<open>Datagram\<close> a datagram handed to the network by a successful \<open>conn.Write\<close>.

  The environment decides whether a send succeeds: a \<open>network\<close> gives, for the
  position \<open>i\<close> of a subscriber in the list being served, whether \<open>net.DialUDP\<close>
  fails, \<open>conn.Write\<close> fails, or both succeed.
\<close>

record location =
  timestamp :: Time
  latitude :: float64
  longitude :: float64

datatype UDPAddr = UDPAddr string nat

datatype diagnostic =
    InvalidRead
  | InvalidSubscriberPacket
  | InvalidVehiclePacket
  | InvalidTimestamp
  | InvalidLatitude
  | InvalidLongitude
  | ConnectFailed UDPAddr
  | SendFailed

datatype event =
    Stdout UDPAddr string
  | Stderr diagnostic
  | DialUDP UDPAddr
  | Datagram UDPAddr string

datatype send_result = DialError | WriteError | SendOk

type_synonym network = "nat \<Rightarrow> send_result"

type_synonym fleet_store = "string \<rightharpoonup> location list"

type_synonym subscriber_store = "string \<rightharpoonup> UDPAddr list"

subsection \<open>sendSubscriberUpdate (lines 196-241)\<close>

text \<open>
  The function is embedded in three parts: \<open>updateSpeed\<close> is lines 199-215 (the
  speed, or the sentinel -1.0), \<open>updateMessage\<close> is lines 217-221 (the text of the
  update) and \<open>sendLoop\<close> is the loop of lines 223-240, which returns from the
  function when \<open>net.DialUDP\<close> fails and goes on to the next subscriber when
  \<open>conn.Write\<close> fails. Line 217 indexes \<open>locations [length-1]\<close>, which panics on
  an empty slice.
\<close>

definition updateSpeed :: "location list \<Rightarrow> float64" where
  "updateSpeed locations =
     (let n = length locations
      in if 1 < n then
           (let loc1 = locations ! (n - 2);
                loc2 = locations ! (n - 1);
                duration = duration_Seconds (time_Sub (timestamp loc2) (timestamp loc1))
            in if f_lt duration (Fin 2) then
                 f_div (getDistance (latitude loc1) (longitude loc1)
                          (latitude loc2) (longitude loc2)) duration
               else Fin (- 1))
         else Fin (- 1))"

definition updateMessage :: "location \<Rightarrow> string \<Rightarrow> float64 \<Rightarrow> string" where
  "updateMessage lastLocation vin speed =
     time_Format_RFC3339Nano (timestamp lastLocation) @ '' '' @ vin @ '' '' @
     fmt_f6 (latitude lastLocation) @ '' '' @ fmt_f6 (longitude lastLocation) @ '' '' @
     fmt_f6 speed"

fun sendLoop :: "network \<Rightarrow> string \<Rightarrow> nat \<Rightarrow> UDPAddr list \<Rightarrow> event list" where
  "sendLoop net message i [] = []"
| "sendLoop net message i (addr # rest) =
     (case net i of
        DialError \<Rightarrow> [DialUDP addr, Stderr (ConnectFailed addr)]
      | WriteError \<Rightarrow> [DialUDP addr, Stderr SendFailed] @ sendLoop net message (Suc i) rest
      | SendOk \<Rightarrow> [DialUDP addr, Datagram addr message] @ sendLoop net message (Suc i) rest)"

definition sendSubscriberUpdate ::
  "UDPAddr list \<Rightarrow> location list \<Rightarrow> string \<Rightarrow> network \<Rightarrow> event list option" where
  "sendSubscriberUpdate subscribers locations vin net =
     (let speed = updateSpeed locations
      in if locations = [] then None
         else Some (sendLoop net
                 (updateMessage (locations ! (length locations - 1)) vin speed) 0 subscribers))"

subsection \<open>handleSubscriberPacket (lines 135-149)\<close>

definition handleSubscriberPacket ::
  "UDPAddr \<Rightarrow> string \<Rightarrow> subscriber_store \<Rightarrow> subscriber_store \<times> event list" where
  "handleSubscriberPacket source message subscribers =
     (let elements = strings_Split message CHR '' ''
      in if length elements \<noteq> 2 then (subscribers, [Stderr InvalidSubscriberPacket])
         else (let vin = elements ! 1
               in case subscribers vin of
                    Some l \<Rightarrow> (subscribers(vin \<mapsto> l @ [source]), [])
                  | None \<Rightarrow> (subscribers(vin \<mapsto> [source]), [])))"

subsection \<open>handleVehiclePacket (lines 153-193)\<close>

text \<open>
  Line 191 passes \<open>fleet [vin]\<close>, read back from the map just updated (the empty
  slice if the key were absent).
\<close>

definition handleVehiclePacket ::
  "string \<Rightarrow> fleet_store \<Rightarrow> subscriber_store \<Rightarrow> network \<Rightarrow>
     (fleet_store \<times> event list) option" where
  "handleVehiclePacket message fleet subscribers net =
     (let elements = strings_Split message CHR '' ''
      in if length elements \<noteq> 4 then Some (fleet, [Stderr InvalidVehiclePacket])
         else case time_Parse_RFC3339Nano (elements ! 0) of
           None \<Rightarrow> Some (fleet, [Stderr InvalidTimestamp])
         | Some ts \<Rightarrow>
            (let vin = elements ! 1
             in case strconv_ParseFloat (elements ! 2) of
               None \<Rightarrow> Some (fleet, [Stderr InvalidLatitude])
             | Some lat \<Rightarrow>
                (case strconv_ParseFloat (elements ! 3) of
                   None \<Rightarrow> Some (fleet, [Stderr InvalidLongitude])
                 | Some lon \<Rightarrow>
                    (let entry = \<lparr>timestamp = ts, latitude = lat, longitude = lon\<rparr>;
                         fleet' = (case fleet vin of
                                     Some h \<Rightarrow> fleet(vin \<mapsto> h @ [entry])
                                   | None \<Rightarrow> fleet(vin \<mapsto> [entry]))
                     in case subscribers vin of
                          Some subscriberList \<Rightarrow>
                            (case fleet' vin of
                               None \<Rightarrow> map_option (Pair fleet')
                                         (sendSubscriberUpdate subscriberList [] vin net)
                             | Some h \<Rightarrow> map_option (Pair fleet')
                                         (sendSubscriberUpdate subscriberList h vin net))
                        | None \<Rightarrow> Some (fleet', [])))))"

subsection \<open>handlePacket (lines 120-130)\<close>

text \<open>The global flag \<open>verbose\<close> is a parameter.\<close>

definition handlePacket ::
  "bool \<Rightarrow> UDPAddr \<Rightarrow> string \<Rightarrow> fleet_store \<Rightarrow> subscriber_store \<Rightarrow> network \<Rightarrow>
     (fleet_store \<times> subscriber_store \<times> event list) option" where
  "handlePacket verbose source message fleet subscribers net =
     (let log = (if verbose then [Stdout source message] else [])
      in if strings_HasPrefix message ''SUBSCRIBE'' then
           (case handleSubscriberPacket source message subscribers of
              (subscribers', evs) \<Rightarrow> Some (fleet, subscribers', log @ evs))
         else
           (case handleVehiclePacket message fleet subscribers net of
              None \<Rightarrow> None
            | Some (fleet', evs) \<Rightarrow> Some (fleet', subscribers, log @ evs)))"

subsection \<open>The server loop of runServer (lines 97-115)\<close>

text \<open>
  One iteration of the loop reads one datagram into a buffer of 256 bytes, so a longer
  payload is cut to its first 256 bytes. \<open>recv\<close> is the outcome of one
  \<open>ReadFromUDP\<close>: an error, or a packet with its source address, its payload and the
  behaviour of the network while the packet is handled. \<open>serverLoop\<close> runs the loop
  over the outcomes of the reads made so far; \<open>runServer\<close> starts it with both maps
  empty, as lines 97 and 101 do. The start-up of lines 64-93 (resolving and binding the
  address, which exits the process on failure, and the banner on stdout) is not part of
  the embedding.
\<close>

datatype recv = ReadError | Packet UDPAddr string network

fun serverLoop ::
  "bool \<Rightarrow> recv list \<Rightarrow> fleet_store \<times> subscriber_store \<times> event list \<Rightarrow>
     (fleet_store \<times> subscriber_store \<times> event list) option" where
  "serverLoop verbose [] st = Some st"
| "serverLoop verbose (ReadError # rs) (fleet, subscribers, out) =
     serverLoop verbose rs (fleet, subscribers, out @ [Stderr InvalidRead])"
| "serverLoop verbose (Packet addr payload net # rs) (fleet, subscribers, out) =
     (case handlePacket verbose addr (take 256 payload) fleet subscribers net of
        None \<Rightarrow> None
      | Some (fleet', subscribers', evs) \<Rightarrow>
          serverLoop verbose rs (fleet', subscribers', out @ evs))"

definition runServer ::
  "bool \<Rightarrow> recv list \<Rightarrow> (fleet_store \<times> subscriber_store \<times> event list) option" where
  "runServer verbose rs = serverLoop verbose rs (Map.empty, Map.empty, [])"

subsection \<open>The checks of the two handlers\<close>

text \<open>
  \<open>split_error\<close> collects the checks that \<open>handlePacket\<close>, \<open>handleSubscriberPacket\<close>
  (line 137) and \<open>handleVehiclePacket\<close> (lines 155, 161, 169, 175) make, in the order
  in which the code makes them, and gives the diagnostic of the first one that fails. The
  elements counted are those of \<open>strings.Split\<close> at every single space, so two adjacent
  spaces, or a space at either end, enclose an empty element that is counted; the kind
  of the datagram is decided by the prefix \<open>SUBSCRIBE\<close>.
\<close>

definition split_error :: "string \<Rightarrow> diagnostic option" where
  "split_error message =
     (let elements = strings_Split message CHR '' ''
      in if strings_HasPrefix message ''SUBSCRIBE'' then
           (if length elements \<noteq> 2 then Some InvalidSubscriberPacket else None)
         else if length elements \<noteq> 4 then Some InvalidVehiclePacket
         else if time_Parse_RFC3339Nano (elements ! 0) = None then Some InvalidTimestamp
         else if strconv_ParseFloat (elements ! 2) = None then Some InvalidLatitude
         else if strconv_ParseFloat (elements ! 3) = None then Some InvalidLongitude
         else None)"

section \<open>Notions of the specification\<close>

text \<open>
  The definitions of this section follow the words of the specification, not the code;
  the theorems below compare the code with them.
\<close>

text \<open>The history of an agent in the fleet store: empty while the agent has no entry.\<close>

definition history :: "fleet_store \<Rightarrow> string \<Rightarrow> location list" where
  "history fleet vin = (case fleet vin of None \<Rightarrow> [] | Some h \<Rightarrow> h)"

text \<open>The subscriber set of an agent: empty while the agent has no entry.\<close>

definition registered :: "subscriber_store \<Rightarrow> string \<Rightarrow> UDPAddr list" where
  "registered subscribers vin = (case subscribers vin of None \<Rightarrow> [] | Some l \<Rightarrow> l)"

text \<open>The observable parts of a list of events.\<close>

fun datagrams :: "event list \<Rightarrow> (UDPAddr \<times> string) list" where
  "datagrams [] = []"
| "datagrams (Datagram a m # es) = (a, m) # datagrams es"
| "datagrams (_ # es) = datagrams es"

fun dials :: "event list \<Rightarrow> UDPAddr list" where
  "dials [] = []"
| "dials (DialUDP a # es) = a # dials es"
| "dials (_ # es) = dials es"

fun diagnostics :: "event list \<Rightarrow> diagnostic list" where
  "diagnostics [] = []"
| "diagnostics (Stderr d # es) = d # diagnostics es"
| "diagnostics (_ # es) = diagnostics es"

text \<open>The events of a run of the server, and the datagrams it sent.\<close>

definition events_of ::
  "(fleet_store \<times> subscriber_store \<times> event list) option \<Rightarrow> event list option" where
  "events_of r = map_option (\<lambda>(fleet, subscribers, out). out) r"

definition sent ::
  "(fleet_store \<times> subscriber_store \<times> event list) option \<Rightarrow> (UDPAddr \<times> string) list option" where
  "sent r = map_option datagrams (events_of r)"

text \<open>
  The gap in seconds between two samples, and the speed of a history as the
  specification words it: the sentinel -1.0 when the history has fewer than two samples
  or the gap between the last two is at least 2.0 seconds, and otherwise the distance
  between the last two samples divided by the gap.
\<close>

definition gap_seconds :: "location \<Rightarrow> location \<Rightarrow> real" where
  "gap_seconds prev cur =
     real_of_int (time_Sub (timestamp cur) (timestamp prev)) / 1000000000"

definition sample_distance :: "location \<Rightarrow> location \<Rightarrow> float64" where
  "sample_distance prev cur =
     getDistance (latitude prev) (longitude prev) (latitude cur) (longitude cur)"

definition spec_speed :: "location list \<Rightarrow> float64" where
  "spec_speed h =
     (if length h < 2 \<or> 2 \<le> gap_seconds (last (butlast h)) (last h) then Fin (- 1)
      else f_div (sample_distance (last (butlast h)) (last h))
             (Fin (gap_seconds (last (butlast h)) (last h))))"

text \<open>
  A position report: exactly four tokens, of which the first parses as a timestamp and
  the third and fourth as numbers. The result is the agent and the sample.
\<close>

definition parse_report :: "string \<Rightarrow> (string \<times> location) option" where
  "parse_report message =
     (case strings_Split message CHR '' '' of
        [ts, vin, la, lo] \<Rightarrow>
          (case time_Parse_RFC3339Nano ts of
             None \<Rightarrow> None
           | Some t \<Rightarrow>
              (case strconv_ParseFloat la of
                 None \<Rightarrow> None
               | Some lat \<Rightarrow>
                  (case strconv_ParseFloat lo of
                     None \<Rightarrow> None
                   | Some lon \<Rightarrow>
                       Some (vin, \<lparr>timestamp = t, latitude = lat, longitude = lon\<rparr>))))
      | _ \<Rightarrow> None)"

text \<open>
  The tokens of a datagram as the specification words them: the maximal runs of
  characters that are not white space (space, tab, line feed, vertical tab, form feed,
  carriage return). No token is empty.
\<close>

definition is_space :: "char \<Rightarrow> bool" where
  "is_space c = (c \<in> set [CHR '' '', CHR 0x09, CHR 0x0A, CHR 0x0B, CHR 0x0C, CHR 0x0D])"

fun fields_from :: "string \<Rightarrow> string \<Rightarrow> string list" where
  "fields_from acc [] = (if acc = [] then [] else [acc])"
| "fields_from acc (c # cs) =
     (if is_space c then (if acc = [] then fields_from [] cs else acc # fields_from [] cs)
      else fields_from (acc @ [c]) cs)"

definition tokens :: "string \<Rightarrow> string list" where
  "tokens message = fields_from [] message"

text \<open>
  The sample a read contributes to the fleet store, and the samples a sequence of reads
  contributes to one agent, in order of arrival.
\<close>

definition accepted :: "recv \<Rightarrow> (string \<times> location) option" where
  "accepted r =
     (case r of
        ReadError \<Rightarrow> None
      | Packet addr payload net \<Rightarrow>
          if strings_HasPrefix (take 256 payload) ''SUBSCRIBE'' then None
          else parse_report (take 256 payload))"

fun samples_for :: "string \<Rightarrow> recv list \<Rightarrow> location list" where
  "samples_for vin [] = []"
| "samples_for vin (r # rs) =
     (case accepted r of
        None \<Rightarrow> samples_for vin rs
      | Some (v, entry) \<Rightarrow>
          if v = vin then entry # samples_for vin rs else samples_for vin rs)"


text \<open>Ranges of float64 values: NaN, or a number within the given bounds.\<close>

definition bounded_or_nan :: "real \<Rightarrow> float64 \<Rightarrow> bool" where
  "bounded_or_nan b x = (x = NaN \<or> (\<exists>r. \<bar>r\<bar> \<le> b \<and> x = Fin r))"

definition nonneg_or_nan :: "float64 \<Rightarrow> bool" where
  "nonneg_or_nan x = (x = NaN \<or> (\<exists>r. 0 \<le> r \<and> x = Fin r))"

definition in_range_or_nan :: "real \<Rightarrow> float64 \<Rightarrow> bool" where
  "in_range_or_nan b x = (x = NaN \<or> (\<exists>r. 0 \<le> r \<and> r \<le> b \<and> x = Fin r))"

section \<open>Example values\<close>

definition sub1 :: UDPAddr where
  "sub1 = UDPAddr ''127.0.0.1'' 8001"

definition sub2 :: UDPAddr where
  "sub2 = UDPAddr ''127.0.0.1'' 8002"

definition veh1 :: UDPAddr where
  "veh1 = UDPAddr ''127.0.0.1'' 40000"

definition net_ok :: network where
  "net_ok i = SendOk"

definition net_dial_fails_first :: network where
  "net_dial_fails_first i = (if i = 0 then DialError else SendOk)"

definition net_write_fails_first :: network where
  "net_write_fails_first i = (if i = 0 then WriteError else SendOk)"

definition new_year :: Time where
  "new_year = \<lparr>year = 2024, month = 1, day = 1, hour = 0, minute = 0, second = 0,
                nanosecond = 0, zoneOffset = 0\<rparr>"

definition new_year_1s :: Time where
  "new_year_1s = \<lparr>year = 2024, month = 1, day = 1, hour = 0, minute = 0, second = 1,
                   nanosecond = 0, zoneOffset = 0\<rparr>"

definition dublin_lat :: float64 where
  "dublin_lat = Fin (53344496 / 1000000)"

definition dublin_long :: float64 where
  "dublin_long = Fin (- 6259427 / 1000000)"

definition dublin :: "Time \<Rightarrow> location" where
  "dublin t = \<lparr>timestamp = t, latitude = dublin_lat, longitude = dublin_long\<rparr>"


definition nowhere :: "Time \<Rightarrow> location" where
  "nowhere t = \<lparr>timestamp = t, latitude = NaN, longitude = Fin 0\<rparr>"

section \<open>The distance computation\<close>

subsection \<open>float64 arithmetic\<close>

lemma max_float64_bound_large: "(10 :: real) ^ 300 < max_float64_bound"
  by (simp add: max_float64_bound_def)

lemma overflow_small: "\<bar>r\<bar> \<le> 10 ^ 300 \<Longrightarrow> overflow r = Fin r"
  using max_float64_bound_large by (auto simp: overflow_def)

lemma overflow_in_range: "\<bar>r\<bar> < max_float64_bound \<Longrightarrow> overflow r = Fin r"
  by (auto simp: overflow_def)

lemma overflow_zero: "overflow 0 = Fin 0"
  by (simp add: overflow_small)

lemma overflow_minus: "overflow (- r) = f_neg (overflow r)"
  using max_float64_bound_large by (auto simp: overflow_def)

lemma f_neg_f_neg: "f_neg (f_neg x) = x"
  by (cases x) simp_all

lemma f_add_neg: "f_add (f_neg x) (f_neg y) = f_neg (f_add x y)"
proof (cases x; cases y)
  fix a b assume "x = Fin a" "y = Fin b"
  then show ?thesis using overflow_minus[of "a + b"] by simp
qed simp_all

lemma f_sub_swap: "f_sub x y = f_neg (f_sub y x)"
proof -
  have "f_neg (f_sub y x) = f_add (f_neg y) (f_neg (f_neg x))"
    by (simp only: f_sub_def f_add_neg)
  also have "\<dots> = f_add (f_neg y) x" by (simp only: f_neg_f_neg)
  also have "\<dots> = f_add x (f_neg y)"
    by (cases x; cases y) (simp_all add: add.commute)
  finally show ?thesis by (simp add: f_sub_def)
qed

lemma f_div_neg_2: "f_div (f_neg x) (Fin 2) = f_neg (f_div x (Fin 2))"
proof (cases x)
  case (Fin a)
  then show ?thesis using overflow_minus[of "a / 2"] by simp
qed simp_all

lemma math_Sin_neg: "math_Sin (f_neg x) = f_neg (math_Sin x)"
  by (cases x) simp_all

lemma math_Pow_neg_2: "math_Pow (f_neg x) 2 = math_Pow x 2"
  by (cases x) simp_all

lemma f_mul_commute: "f_mul x y = f_mul y x"
  by (cases x; cases y) (simp_all add: mult.commute)

lemma half_angle_sq_swap:
  "math_Pow (math_Sin (f_div (f_sub y x) (Fin 2))) 2 =
   math_Pow (math_Sin (f_div (f_sub x y) (Fin 2))) 2"
proof -
  have "math_Pow (math_Sin (f_div (f_sub y x) (Fin 2))) 2 =
        math_Pow (math_Sin (f_div (f_neg (f_sub x y)) (Fin 2))) 2"
    using f_sub_swap[of y x] by simp
  also have "\<dots> = math_Pow (f_neg (math_Sin (f_div (f_sub x y) (Fin 2)))) 2"
    by (simp only: f_div_neg_2 math_Sin_neg)
  also have "\<dots> = math_Pow (math_Sin (f_div (f_sub x y) (Fin 2))) 2"
    by (rule math_Pow_neg_2)
  finally show ?thesis .
qed

subsection \<open>Symmetry, zero distance and range of getDistance\<close>

lemma getDistance_swap: "getDistance lat1 long1 lat2 long2 = getDistance lat2 long2 lat1 long1"
  unfolding getDistance_def Let_def
  by (simp only: half_angle_sq_swap[of _ "f_div (f_mul lat1 (Fin pi)) (Fin 180)"]
      half_angle_sq_swap[of _ "f_div (f_mul long1 (Fin pi)) (Fin 180)"]
      f_mul_commute[of "math_Cos (f_div (f_mul lat1 (Fin pi)) (Fin 180))"])


lemma getDistance_same:
  assumes "\<bar>la\<bar> * pi < max_float64_bound" and "\<bar>lo\<bar> * pi < max_float64_bound"
  shows "getDistance (Fin la) (Fin lo) (Fin la) (Fin lo) = Fin 0"
proof -
  have rad: "f_div (f_mul (Fin x) (Fin pi)) (Fin 180) = Fin (x * pi / 180)"
    if "\<bar>x\<bar> * pi < max_float64_bound" for x
  proof -
    from that have a: "\<bar>x * pi\<bar> < max_float64_bound" by (simp add: abs_mult)
    then have "\<bar>x * pi / 180\<bar> < max_float64_bound" by simp
    with a show ?thesis by (simp add: overflow_in_range)
  qed
  have cc: "overflow (cos p * cos p) = Fin (cos p * cos p)" for p :: real
  proof -
    have "\<bar>cos p * cos p\<bar> \<le> 1 * 1"
      unfolding abs_mult by (intro mult_mono) simp_all
    then show ?thesis by (simp add: overflow_small)
  qed
  show ?thesis
    unfolding getDistance_def Let_def rad[OF assms(1)] rad[OF assms(2)]
    by (simp add: f_sub_def overflow_zero cc overflow_small)
qed

lemma degrees_in_range: "\<bar>x\<bar> \<le> 1000 \<Longrightarrow> \<bar>x\<bar> * pi < max_float64_bound"
proof -
  assume "\<bar>x\<bar> \<le> 1000"
  then have "\<bar>x\<bar> * pi \<le> 1000 * 4"
    using pi_less_4 by (intro mult_mono) simp_all
  also have "\<dots> < max_float64_bound" by (simp add: max_float64_bound_def)
  finally show ?thesis .
qed

lemma bounded_Sin: "bounded_or_nan 1 (math_Sin x)"
  by (cases x) (simp_all add: bounded_or_nan_def)

lemma bounded_Cos: "bounded_or_nan 1 (math_Cos x)"
  by (cases x) (simp_all add: bounded_or_nan_def)

lemma bounded_Pow_2: "bounded_or_nan 1 x \<Longrightarrow> bounded_or_nan 1 (math_Pow x 2)"
proof (cases x)
  case (Fin r)
  assume "bounded_or_nan 1 x"
  with Fin have "\<bar>r\<bar> \<le> 1" by (simp add: bounded_or_nan_def)
  then have "\<bar>r\<^sup>2\<bar> \<le> 1" by (simp add: abs_square_le_1 power2_abs)
  then show ?thesis
    using Fin by (simp add: bounded_or_nan_def overflow_small)
qed (simp_all add: bounded_or_nan_def)

lemma bounded_mul:
  assumes "bounded_or_nan 1 x" and "bounded_or_nan 1 y"
  shows "bounded_or_nan 1 (f_mul x y)"
proof (cases "x = NaN \<or> y = NaN")
  case True
  then show ?thesis by (cases x; cases y) (simp_all add: bounded_or_nan_def)
next
  case False
  with assms obtain a b where ab: "x = Fin a" "\<bar>a\<bar> \<le> 1" "y = Fin b" "\<bar>b\<bar> \<le> 1"
    by (auto simp: bounded_or_nan_def)
  have "\<bar>a * b\<bar> \<le> 1 * 1"
    unfolding abs_mult using ab(2,4) by (intro mult_mono) simp_all
  then show ?thesis
    by (simp add: ab(1,3) bounded_or_nan_def overflow_small)
qed

lemma bounded_add:
  assumes "bounded_or_nan 1 x" and "bounded_or_nan 1 y"
  shows "bounded_or_nan 2 (f_add x y)"
proof (cases "x = NaN \<or> y = NaN")
  case True
  then show ?thesis by (cases x; cases y) (simp_all add: bounded_or_nan_def)
next
  case False
  with assms obtain a b where ab: "x = Fin a" "\<bar>a\<bar> \<le> 1" "y = Fin b" "\<bar>b\<bar> \<le> 1"
    by (auto simp: bounded_or_nan_def)
  then have "\<bar>a + b\<bar> \<le> 2" by simp
  then show ?thesis
    by (simp add: ab(1,3) bounded_or_nan_def overflow_small)
qed

lemma bounded_one_minus:
  assumes "bounded_or_nan 2 x"
  shows "bounded_or_nan 3 (f_sub (Fin 1) x)"
proof (cases x)
  case (Fin r)
  with assms have "\<bar>r\<bar> \<le> 2" by (simp add: bounded_or_nan_def)
  then have "\<bar>1 - r\<bar> \<le> 3" by simp
  then show ?thesis
    using Fin by (simp add: f_sub_def bounded_or_nan_def overflow_small)
qed (use assms in \<open>simp_all add: bounded_or_nan_def f_sub_def\<close>)

lemma nonneg_or_nan_Sqrt: "bounded_or_nan b x \<Longrightarrow> nonneg_or_nan (math_Sqrt x)"
  by (cases x) (simp_all add: bounded_or_nan_def nonneg_or_nan_def)

lemma atan2_first_quadrant:
  fixes y x :: real
  assumes "0 \<le> y" and "0 \<le> x"
  shows "0 \<le> (if x = 0 then (if 0 < y then pi / 2 else if y < 0 then - pi / 2 else 0)
          else if 0 < x then arctan (y / x)
          else if y = 0 then pi
          else if arctan (y / x) \<le> 0 then arctan (y / x) + pi
          else arctan (y / x) - pi)"
    and "(if x = 0 then (if 0 < y then pi / 2 else if y < 0 then - pi / 2 else 0)
          else if 0 < x then arctan (y / x)
          else if y = 0 then pi
          else if arctan (y / x) \<le> 0 then arctan (y / x) + pi
          else arctan (y / x) - pi) \<le> pi / 2"
proof -
  show "0 \<le> (if x = 0 then (if 0 < y then pi / 2 else if y < 0 then - pi / 2 else 0)
          else if 0 < x then arctan (y / x)
          else if y = 0 then pi
          else if arctan (y / x) \<le> 0 then arctan (y / x) + pi
          else arctan (y / x) - pi)"
  proof (cases "x = 0")
    case True
    with assms show ?thesis by simp
  next
    case False
    with assms have "0 < x" by simp
    moreover from assms have "0 \<le> arctan (y / x)"
      by (simp add: zero_le_arctan_iff)
    ultimately show ?thesis by simp
  qed
  show "(if x = 0 then (if 0 < y then pi / 2 else if y < 0 then - pi / 2 else 0)
          else if 0 < x then arctan (y / x)
          else if y = 0 then pi
          else if arctan (y / x) \<le> 0 then arctan (y / x) + pi
          else arctan (y / x) - pi) \<le> pi / 2"
  proof (cases "x = 0")
    case True
    with assms show ?thesis by simp
  next
    case False
    with assms have "0 < x" by simp
    moreover have "arctan (y / x) \<le> pi / 2"
      using arctan_ubound[of "y / x"] by simp
    ultimately show ?thesis by simp
  qed
qed

lemma in_range_Atan2:
  assumes "nonneg_or_nan y" and "nonneg_or_nan x"
  shows "in_range_or_nan (pi / 2) (math_Atan2 y x)"
proof (cases "y = NaN \<or> x = NaN")
  case True
  then show ?thesis by (cases y; cases x) (simp_all add: in_range_or_nan_def)
next
  case False
  with assms obtain r s where rs: "y = Fin r" "0 \<le> r" "x = Fin s" "0 \<le> s"
    by (auto simp: nonneg_or_nan_def)
  show ?thesis
    unfolding rs(1) rs(3) math_Atan2.simps in_range_or_nan_def
    using atan2_first_quadrant[OF rs(2) rs(4)] by blast
qed

lemma in_range_scale:
  assumes "0 < k" and "k * b \<le> 10 ^ 300" and "in_range_or_nan b x"
  shows "in_range_or_nan (k * b) (f_mul (Fin k) x)"
proof (cases x)
  case (Fin r)
  with assms(3) have r: "0 \<le> r" "r \<le> b" by (simp_all add: in_range_or_nan_def)
  with assms(1) have kr: "0 \<le> k * r" "k * r \<le> k * b" by simp_all
  with assms(2) have "\<bar>k * r\<bar> \<le> 10 ^ 300" by simp
  then show ?thesis
    using Fin kr by (simp add: in_range_or_nan_def overflow_small)
qed (use assms in \<open>simp_all add: in_range_or_nan_def\<close>)

lemma getDistance_range: "in_range_or_nan (earthRadius * pi) (getDistance lat1 long1 lat2 long2)"
proof -
  let ?phi1 = "f_div (f_mul lat1 (Fin pi)) (Fin 180)"
  let ?phi2 = "f_div (f_mul lat2 (Fin pi)) (Fin 180)"
  let ?dphi = "f_sub ?phi2 ?phi1"
  let ?dlam = "f_sub (f_div (f_mul long2 (Fin pi)) (Fin 180)) (f_div (f_mul long1 (Fin pi)) (Fin 180))"
  let ?a = "f_add (math_Pow (math_Sin (f_div ?dphi (Fin 2))) 2)
                (f_mul (f_mul (math_Cos ?phi1) (math_Cos ?phi2))
                   (math_Pow (math_Sin (f_div ?dlam (Fin 2))) 2))"
  have a: "bounded_or_nan 2 ?a"
    by (intro bounded_add bounded_mul bounded_Pow_2 bounded_Sin bounded_Cos)
  have "in_range_or_nan (pi / 2) (math_Atan2 (math_Sqrt ?a) (math_Sqrt (f_sub (Fin 1) ?a)))"
    by (intro in_range_Atan2 nonneg_or_nan_Sqrt[OF a] nonneg_or_nan_Sqrt[OF bounded_one_minus[OF a]])
  then have "in_range_or_nan (2 * (pi / 2))
      (f_mul (Fin 2) (math_Atan2 (math_Sqrt ?a) (math_Sqrt (f_sub (Fin 1) ?a))))"
    using pi_less_4 by (intro in_range_scale) simp_all
  then have c: "in_range_or_nan pi
      (f_mul (Fin 2) (math_Atan2 (math_Sqrt ?a) (math_Sqrt (f_sub (Fin 1) ?a))))"
    by simp
  have "earthRadius * pi \<le> 6371009 * 4"
    unfolding earthRadius_def using pi_less_4 by simp
  also have "\<dots> \<le> (10 :: real) ^ 300" by simp
  finally have "earthRadius * pi \<le> 10 ^ 300" .
  then have "in_range_or_nan (earthRadius * pi) (f_mul (Fin earthRadius)
      (f_mul (Fin 2) (math_Atan2 (math_Sqrt ?a) (math_Sqrt (f_sub (Fin 1) ?a)))))"
    by (intro in_range_scale c) (simp add: earthRadius_def)
  then show ?thesis
    by (simp only: getDistance_def Let_def)
qed

lemma f_mul_NaN_left: "f_mul NaN y = NaN"
  by (cases y) simp_all

lemma f_add_NaN_right: "f_add x NaN = NaN"
  by (cases x) simp_all

lemma f_add_NaN_left: "f_add NaN y = NaN"
  by (cases y) simp_all

lemma f_mul_NaN_right: "f_mul x NaN = NaN"
  by (cases x) simp_all

lemma f_div_NaN_right: "f_div x NaN = NaN"
  by (cases x) simp_all

lemma f_sub_NaN_right: "f_sub x NaN = NaN"
  by (simp add: f_sub_def f_add_NaN_right)

lemma getDistance_NaN: "getDistance NaN long1 lat2 long2 = NaN"
  unfolding getDistance_def Let_def
  by (simp add: f_sub_NaN_right f_add_NaN_left f_mul_NaN_right f_mul_NaN_left)


text \<open>
  C7. The distance is symmetric, \<open>getDistance p1 p2 = getDistance p2 p1\<close>, for all
  arguments, and the distance from a point to itself is 0 for every point whose
  latitude and longitude in degrees are numbers that can be converted to radians
  without leaving the range of float64 (any magnitude below \<open>5.7 * 10^307\<close>, so every
  latitude and longitude).
\<close>

theorem getDistance_symmetric_and_zero:
  "getDistance lat1 long1 lat2 long2 = getDistance lat2 long2 lat1 long1
   \<and> (\<bar>la\<bar> * pi < max_float64_bound \<longrightarrow> \<bar>lo\<bar> * pi < max_float64_bound \<longrightarrow>
        getDistance (Fin la) (Fin lo) (Fin la) (Fin lo) = Fin 0)"
  using getDistance_swap[of lat1 long1 lat2 long2] getDistance_same[of la lo] by blast

theorem getDistance_symmetric_and_zero_witness:
  "getDistance (Fin 53) (Fin (- 6)) (Fin 54) (Fin (- 7)) =
     getDistance (Fin 54) (Fin (- 7)) (Fin 53) (Fin (- 6))
   \<and> \<bar>53\<bar> * pi < max_float64_bound \<and> \<bar>- 6\<bar> * pi < max_float64_bound
   \<and> getDistance (Fin 53) (Fin (- 6)) (Fin 53) (Fin (- 6)) = Fin 0"
proof -
  have a: "\<bar>53\<bar> * pi < max_float64_bound" by (rule degrees_in_range) simp
  have b: "\<bar>- 6\<bar> * pi < max_float64_bound" by (rule degrees_in_range) simp
  from getDistance_symmetric_and_zero[of "Fin 53" "Fin (- 6)" "Fin 54" "Fin (- 7)" 53 "- 6"] a b
  show ?thesis by blast
qed


section \<open>Splitting\<close>

lemma split_from_nonempty: "split_from acc s sep \<noteq> []"
  by (induction s arbitrary: acc) auto

lemma split_from_no_sep: "sep \<notin> set s \<Longrightarrow> split_from acc s sep = [acc @ s]"
  by (induction s arbitrary: acc) auto

lemma split_from_first:
  "sep \<notin> set a \<Longrightarrow> split_from acc (a @ sep # s) sep = (acc @ a) # split_from [] s sep"
  by (induction a arbitrary: acc) auto

lemma hd_split_from: "hd (split_from acc s sep) = acc @ takeWhile (\<lambda>c. c \<noteq> sep) s"
  by (induction s arbitrary: acc) auto

lemma strings_Split_nonempty: "strings_Split s sep \<noteq> []"
  by (simp add: strings_Split_def split_from_nonempty)

lemma hd_strings_Split: "hd (strings_Split s sep) = takeWhile (\<lambda>c. c \<noteq> sep) s"
  by (simp add: strings_Split_def hd_split_from)

lemma strings_Split_subscribe:
  assumes "CHR '' '' \<notin> set vin"
  shows "strings_Split (''SUBSCRIBE '' @ vin) CHR '' '' = [''SUBSCRIBE'', vin]"
proof -
  have "strings_Split (''SUBSCRIBE'' @ CHR '' '' # vin) CHR '' '' =
          ([] @ ''SUBSCRIBE'') # split_from [] vin CHR '' ''"
    unfolding strings_Split_def by (rule split_from_first) simp
  with assms show ?thesis by (simp add: split_from_no_sep)
qed


section \<open>Timestamps start with a digit\<close>

lemma dec_value_first_digit: "dec_value acc (c # cs) = Some v \<Longrightarrow> digit_of c \<noteq> None"
  by (auto split: option.splits)

lemma num_fixed_first_digit:
  assumes "num_fixed 4 s = Some r"
  shows "\<exists>c cs. s = c # cs \<and> digit_of c \<noteq> None"
proof -
  from assms have len: "4 \<le> length s" and pn: "parse_nat (take 4 s) \<noteq> None"
    by (auto simp: num_fixed_def split: if_splits)
  from len obtain c cs where s: "s = c # cs" by (cases s) auto
  with pn obtain v where "dec_value 0 (c # take 3 cs) = Some v"
    by (auto simp: parse_nat_def)
  then have "digit_of c \<noteq> None" by (rule dec_value_first_digit)
  with s show ?thesis by blast
qed

lemma time_Parse_first_digit:
  assumes "time_Parse_RFC3339Nano s = Some t"
  shows "\<exists>c cs. s = c # cs \<and> digit_of c \<noteq> None"
proof -
  from assms obtain r where "num_fixed 4 s = Some r"
    by (cases "num_fixed 4 s") (simp_all add: time_Parse_RFC3339Nano_def)
  then show ?thesis by (rule num_fixed_first_digit)
qed

lemma digit_of_S: "digit_of CHR ''S'' = None"
  by (simp add: digit_of_def)

lemma parse_report_not_subscribe:
  assumes "parse_report message = Some p"
  shows "\<not> strings_HasPrefix message ''SUBSCRIBE''"
proof
  assume pre: "strings_HasPrefix message ''SUBSCRIBE''"
  from assms obtain ts rest t where sp: "strings_Split message CHR '' '' = ts # rest"
    and t: "time_Parse_RFC3339Nano ts = Some t"
    by (auto simp: parse_report_def split: list.splits option.splits)
  from sp have "ts = takeWhile (\<lambda>c. c \<noteq> CHR '' '') message"
    using hd_strings_Split[of message "CHR '' ''"] by simp
  moreover from pre obtain m where "message = CHR ''S'' # m"
    by (cases message) (auto simp: strings_HasPrefix_def)
  ultimately have "ts = CHR ''S'' # takeWhile (\<lambda>c. c \<noteq> CHR '' '') m" by simp
  with time_Parse_first_digit[OF t] digit_of_S show False by auto
qed


section \<open>The send loop\<close>


lemma sendLoop_all_ok:
  "(\<And>j. net j = SendOk) \<Longrightarrow>
     datagrams (sendLoop net message i subs) = map (\<lambda>a. (a, message)) subs"
  by (induction subs arbitrary: i) auto

lemma sendLoop_dials_no_dial_error:
  "(\<And>j. net j \<noteq> DialError) \<Longrightarrow> dials (sendLoop net message i subs) = subs"
proof (induction subs arbitrary: i)
  case Nil
  show ?case by simp
next
  case (Cons a subs)
  from Cons.prems[of i] show ?case
    by (cases "net i") (simp_all add: Cons.IH[OF Cons.prems])
qed

lemma sendLoop_dials_empty: "dials (sendLoop net message i subs) = [] \<longleftrightarrow> subs = []"
  by (cases subs) (auto split: send_result.splits)

lemma sendLoop_no_diagnostics_ok:
  "(\<And>j. net j = SendOk) \<Longrightarrow> diagnostics (sendLoop net message i subs) = []"
  by (induction subs arbitrary: i) auto

section \<open>The speed of an update\<close>

lemma f_lt_Seconds: "f_lt (duration_Seconds d) (Fin 2) \<longleftrightarrow> real_of_int d / 1000000000 < 2"
  by (simp add: duration_Seconds_def)

lemma last_two:
  assumes "2 \<le> length xs"
  shows "xs ! (length xs - 2) = last (butlast xs)" and "xs ! (length xs - 1) = last xs"
proof -
  from assms have ne: "xs \<noteq> []" "butlast xs \<noteq> []" by (auto simp: butlast_conv_take)
  show "xs ! (length xs - 1) = last xs" using ne(1) by (simp add: last_conv_nth)
  have eq: "length (butlast xs) - 1 = length xs - 2" by simp
  have "last (butlast xs) = butlast xs ! (length (butlast xs) - 1)"
    by (rule last_conv_nth[OF ne(2)])
  also have "\<dots> = butlast xs ! (length xs - 2)" by (simp only: eq)
  also have "\<dots> = xs ! (length xs - 2)"
    by (rule nth_butlast) (use assms in simp)
  finally show "xs ! (length xs - 2) = last (butlast xs)" by simp
qed

lemma updateSpeed_spec: "updateSpeed locations = spec_speed locations"
proof (cases "2 \<le> length locations")
  case True
  then have gt: "1 < length locations" and ge: "\<not> length locations < 2" by simp_all
  show ?thesis
    unfolding updateSpeed_def spec_speed_def Let_def last_two[OF True]
    using gt ge
    by (simp add: f_lt_Seconds gap_seconds_def sample_distance_def duration_Seconds_def not_less)
next
  case False
  then show ?thesis by (simp add: updateSpeed_def spec_speed_def)
qed

lemma sendSubscriberUpdate_nonempty:
  "locations \<noteq> [] \<Longrightarrow>
     sendSubscriberUpdate subs locations vin net =
       Some (sendLoop net (updateMessage (last locations) vin (updateSpeed locations)) 0 subs)"
  by (simp add: sendSubscriberUpdate_def last_conv_nth)

lemma sendSubscriberUpdate_empty: "sendSubscriberUpdate subs [] vin net = None"
  by (simp add: sendSubscriberUpdate_def)

section \<open>The handlers\<close>

lemma handleVehiclePacket_accepted:
  assumes "parse_report message = Some (vin, entry)"
  shows "handleVehiclePacket message fleet subs net =
     Some (fleet(vin \<mapsto> history fleet vin @ [entry]),
           case subs vin of
             None \<Rightarrow> []
           | Some l \<Rightarrow> sendLoop net
               (updateMessage entry vin (updateSpeed (history fleet vin @ [entry]))) 0 l)"
proof -
  from assms obtain ts la lo t lat lon where
    sp: "strings_Split message CHR '' '' = [ts, vin, la, lo]"
    and t: "time_Parse_RFC3339Nano ts = Some t"
    and la: "strconv_ParseFloat la = Some lat"
    and lo: "strconv_ParseFloat lo = Some lon"
    and e: "entry = \<lparr>timestamp = t, latitude = lat, longitude = lon\<rparr>"
    by (auto simp: parse_report_def split: list.splits option.splits)
  show ?thesis
    unfolding handleVehiclePacket_def Let_def sp
    by (simp add: t la lo e[symmetric] history_def sendSubscriberUpdate_nonempty
        split: option.splits)
qed

lemma handleVehiclePacket_rejected:
  assumes "\<not> strings_HasPrefix message ''SUBSCRIBE''" and "split_error message = Some d"
  shows "handleVehiclePacket message fleet subs net = Some (fleet, [Stderr d])"
  using assms
  unfolding handleVehiclePacket_def split_error_def Let_def
  by (auto split: if_splits option.splits)

lemma parse_report_None:
  assumes "\<not> strings_HasPrefix message ''SUBSCRIBE''" and "parse_report message = None"
  shows "\<exists>d. split_error message = Some d"
proof (cases "length (strings_Split message CHR '' '') = 4")
  case False
  with assms(1) show ?thesis by (simp add: split_error_def)
next
  case True
  then obtain ts vin la lo where sp: "strings_Split message CHR '' '' = [ts, vin, la, lo]"
    by (auto simp: length_Suc_conv numeral_eq_Suc)
  with assms show ?thesis
    by (auto simp: split_error_def parse_report_def eval_nat_numeral split: option.splits)
qed


lemma handleSubscriberPacket_accepted:
  assumes "strings_Split message CHR '' '' = [cmd, vin]"
  shows "handleSubscriberPacket source message subs =
           (subs(vin \<mapsto> registered subs vin @ [source]), [])"
  using assms by (simp add: handleSubscriberPacket_def registered_def split: option.splits)



section \<open>Evaluation of the library model on the example values\<close>

lemma replicate_num: "replicate (numeral k) x = x # replicate (pred_numeral k) x"
  by (simp add: numeral_eq_Suc)

lemma round_half_even_nat: "round_half_even (real n) = n"
  by (simp add: round_half_even_def)

lemma fmt_f6_micro:
  "fmt_f6 (Fin (real_of_int k / 1000000)) =
     (if k < 0 then ''-'' else '''') @ itoa (nat \<bar>k\<bar> div 1000000) @ ''.'' @
     pad_zeros 6 (itoa (nat \<bar>k\<bar> mod 1000000))"
proof -
  have "\<bar>real_of_int k / 1000000\<bar> * 1000000 = real (nat \<bar>k\<bar>)" by simp
  then have r: "round_half_even (\<bar>real_of_int k / 1000000\<bar> * 1000000) = nat \<bar>k\<bar>"
    by (simp only: round_half_even_nat)
  have s: "(real_of_int k / 1000000 < 0) = (k < 0)" by simp
  show ?thesis
    unfolding fmt_f6.simps Let_def r s ..
qed

lemma fmt_f6_dublin_lat: "fmt_f6 dublin_lat = ''53.344496''"
proof -
  have eq: "dublin_lat = Fin (real_of_int 53344496 / 1000000)"
    by (simp add: dublin_lat_def)
  show ?thesis
    unfolding eq fmt_f6_micro
    by (simp add: itoa.simps digit_char_def pad_zeros_def replicate_num)
qed

lemma fmt_f6_dublin_long: "fmt_f6 dublin_long = ''-6.259427''"
proof -
  have eq: "dublin_long = Fin (real_of_int (- 6259427) / 1000000)"
    by (simp add: dublin_long_def)
  show ?thesis
    unfolding eq fmt_f6_micro
    by (simp add: itoa.simps digit_char_def pad_zeros_def replicate_num)
qed

lemma fmt_f6_sentinel: "fmt_f6 (Fin (- 1)) = ''-1.000000''"
proof -
  have eq: "Fin (- 1) = Fin (real_of_int (- 1000000) / 1000000)"
    by simp
  show ?thesis
    unfolding eq fmt_f6_micro
    by (simp add: itoa.simps digit_char_def pad_zeros_def replicate_num)
qed

lemma fmt_f6_zero: "fmt_f6 (Fin 0) = ''0.000000''"
proof -
  have eq: "Fin 0 = Fin (real_of_int 0 / 1000000)"
    by simp
  show ?thesis
    unfolding eq fmt_f6_micro
    by (simp add: itoa.simps digit_char_def pad_zeros_def replicate_num)
qed

lemma format_new_year: "time_Format_RFC3339Nano new_year = ''2024-01-01T00:00:00Z''"
  by (simp add: new_year_def time_Format_RFC3339Nano_def format_fraction_def format_zone_def
      itoa.simps digit_char_def pad_zeros_def)

lemma format_new_year_1s: "time_Format_RFC3339Nano new_year_1s = ''2024-01-01T00:00:01Z''"
  by (simp add: new_year_1s_def time_Format_RFC3339Nano_def format_fraction_def format_zone_def
      itoa.simps digit_char_def pad_zeros_def)

lemma parse_new_year:
  "time_Parse_RFC3339Nano ''2024-01-01T00:00:00.000000000Z'' = Some new_year"
  by (simp add: new_year_def time_Parse_RFC3339Nano_def num_fixed_def parse_nat_def digit_of_def
      expect_def parse_fraction_def parse_zone_def daysIn_def isLeap_def)

lemma parse_new_year_short: "time_Parse_RFC3339Nano ''2024-01-01T00:00:00Z'' = Some new_year"
  by (simp add: new_year_def time_Parse_RFC3339Nano_def num_fixed_def parse_nat_def digit_of_def
      expect_def parse_fraction_def parse_zone_def daysIn_def isLeap_def)

lemma parse_new_year_1s: "time_Parse_RFC3339Nano ''2024-01-01T00:00:01Z'' = Some new_year_1s"
  by (simp add: new_year_1s_def time_Parse_RFC3339Nano_def num_fixed_def parse_nat_def digit_of_def
      expect_def parse_fraction_def parse_zone_def daysIn_def isLeap_def)

lemma parse_dublin_lat: "strconv_ParseFloat ''53.344496'' = Some dublin_lat"
  by (simp add: dublin_lat_def strconv_ParseFloat_def parse_special_def parse_decimal_def
      strip_sign_def to_lower_def parse_nat_def digit_of_def max_float64_bound_def)

lemma parse_dublin_long: "strconv_ParseFloat ''-6.259427'' = Some dublin_long"
  by (simp add: dublin_long_def strconv_ParseFloat_def parse_special_def parse_decimal_def
      strip_sign_def to_lower_def parse_nat_def digit_of_def max_float64_bound_def)

lemma parse_NaN: "strconv_ParseFloat ''NaN'' = Some NaN"
  by (simp add: strconv_ParseFloat_def parse_special_def strip_sign_def to_lower_def)

lemma parse_zero: "strconv_ParseFloat ''0'' = Some (Fin 0)"
  by (simp add: strconv_ParseFloat_def parse_special_def parse_decimal_def
      strip_sign_def to_lower_def parse_nat_def digit_of_def max_float64_bound_def)



lemma unixNano_new_year: "unixNano new_year = 1704067200000000000"
  by (simp add: unixNano_def new_year_def days_from_civil_def)

lemma unixNano_new_year_1s: "unixNano new_year_1s = 1704067201000000000"
  by (simp add: unixNano_def new_year_1s_def days_from_civil_def)

lemma time_Sub_examples:
  "time_Sub new_year_1s new_year = 1000000000"
  "time_Sub new_year new_year_1s = - 1000000000"
  "time_Sub new_year new_year = 0"
  by (simp_all add: time_Sub_def unixNano_new_year unixNano_new_year_1s minDuration_def
      maxDuration_def)


section \<open>Runs of the example datagrams\<close>

lemma split_subscribe_V1: "strings_Split ''SUBSCRIBE V1'' CHR '' '' = [''SUBSCRIBE'', ''V1'']"
  by (simp add: strings_Split_def)

lemma split_report:
  "strings_Split ''2024-01-01T00:00:00.000000000Z V1 53.344496 -6.259427'' CHR '' '' =
     [''2024-01-01T00:00:00.000000000Z'', ''V1'', ''53.344496'', ''-6.259427'']"
  by (simp add: strings_Split_def)

lemma parse_report_example:
  "parse_report ''2024-01-01T00:00:00.000000000Z V1 53.344496 -6.259427'' =
     Some (''V1'', dublin new_year)"
  by (simp add: parse_report_def split_report parse_new_year parse_dublin_lat parse_dublin_long
      dublin_def)

lemma updateMessage_first:
  "updateMessage (dublin new_year) ''V1'' (Fin (- 1)) =
     ''2024-01-01T00:00:00Z V1 53.344496 -6.259427 -1.000000''"
  by (simp add: updateMessage_def dublin_def format_new_year fmt_f6_dublin_lat
      fmt_f6_dublin_long fmt_f6_sentinel del: fmt_f6.simps)

lemma handlePacket_subscribe_V1:
  "handlePacket verbose source ''SUBSCRIBE V1'' fleet subs net =
     Some (fleet, subs(''V1'' \<mapsto> registered subs ''V1'' @ [source]),
           if verbose then [Stdout source ''SUBSCRIBE V1''] else [])"
  by (simp add: handlePacket_def strings_HasPrefix_def
      handleSubscriberPacket_accepted[OF split_subscribe_V1])

lemma handlePacket_accepted:
  assumes "parse_report message = Some (vin, entry)"
  shows "handlePacket verbose source message fleet subs net =
     Some (fleet(vin \<mapsto> history fleet vin @ [entry]), subs,
           (if verbose then [Stdout source message] else []) @
           (case subs vin of
              None \<Rightarrow> []
            | Some l \<Rightarrow> sendLoop net
                (updateMessage entry vin (updateSpeed (history fleet vin @ [entry]))) 0 l))"
  using parse_report_not_subscribe[OF assms]
  by (simp add: handlePacket_def handleVehiclePacket_accepted[OF assms])

lemma spec_speed_single: "spec_speed [l] = Fin (- 1)"
  by (simp add: spec_speed_def)

lemma take_256_short: "length s \<le> 256 \<Longrightarrow> take 256 s = s"
  by simp

lemma run_of_subscription_and_report:
  assumes "net_rep 0 = SendOk"
  shows "runServer verbose
           [Packet sub ''SUBSCRIBE V1'' net_sub,
            Packet veh ''2024-01-01T00:00:00.000000000Z V1 53.344496 -6.259427'' net_rep] =
         Some ([''V1'' \<mapsto> [dublin new_year]], [''V1'' \<mapsto> [sub]],
           (if verbose then [Stdout sub ''SUBSCRIBE V1''] else []) @
           (if verbose then [Stdout veh ''2024-01-01T00:00:00.000000000Z V1 53.344496 -6.259427''] else []) @
           [DialUDP sub,
            Datagram sub ''2024-01-01T00:00:00Z V1 53.344496 -6.259427 -1.000000''])"
proof -
  have t1: "take 256 ''SUBSCRIBE V1'' = ''SUBSCRIBE V1''"
    by (rule take_256_short) simp
  have t2: "take 256 ''2024-01-01T00:00:00.000000000Z V1 53.344496 -6.259427'' =
      ''2024-01-01T00:00:00.000000000Z V1 53.344496 -6.259427''"
    by (rule take_256_short) simp
  show ?thesis
    unfolding runServer_def serverLoop.simps t1 t2
    by (simp add: handlePacket_subscribe_V1 handlePacket_accepted[OF parse_report_example]
        registered_def history_def updateSpeed_spec spec_speed_single updateMessage_first assms)
qed


section \<open>Updates and their dispatch\<close>


lemma sample_distance_dublin: "sample_distance (dublin t) (dublin u) = Fin 0"
proof -
  have "\<bar>53344496 / 1000000\<bar> * pi < max_float64_bound"
    by (rule degrees_in_range) simp
  moreover have "\<bar>- 6259427 / 1000000\<bar> * pi < max_float64_bound"
    by (rule degrees_in_range) simp
  ultimately show ?thesis
    unfolding sample_distance_def dublin_def dublin_lat_def dublin_long_def
    by (simp only: location.simps getDistance_same)
qed



text \<open>
  C2 (the code does not do this). The claim is that no failure to send to one subscriber
  stops the update from being sent to the subscribers after it. A failed \<open>conn.Write\<close>
  indeed goes on to the next subscriber, but a failed \<open>net.DialUDP\<close> returns from
  \<open>sendSubscriberUpdate\<close> (line 231): with two subscribers of V1 and a position report
  for V1 that arrives while dialling the first subscriber fails, the first is dialled, the
  failure is logged, and the second subscriber is never dialled and receives nothing.
\<close>

theorem dial_failure_aborts_dispatch:
  "events_of (runServer False
     [Packet sub1 ''SUBSCRIBE V1'' net_ok,
      Packet sub2 ''SUBSCRIBE V1'' net_ok,
      Packet veh1 ''2024-01-01T00:00:00.000000000Z V1 53.344496 -6.259427''
        net_dial_fails_first]) =
   Some [DialUDP sub1, Stderr (ConnectFailed sub1)]"
proof -
  have t1: "take 256 ''SUBSCRIBE V1'' = ''SUBSCRIBE V1''"
    by (rule take_256_short) simp
  have t2: "take 256 ''2024-01-01T00:00:00.000000000Z V1 53.344496 -6.259427'' =
      ''2024-01-01T00:00:00.000000000Z V1 53.344496 -6.259427''"
    by (rule take_256_short) simp
  show ?thesis
    unfolding runServer_def serverLoop.simps t1 t2 events_of_def
    by (simp add: handlePacket_subscribe_V1 handlePacket_accepted[OF parse_report_example]
        registered_def history_def net_dial_fails_first_def)
qed

lemma write_failure_continues:
  "events_of (runServer False
     [Packet sub1 ''SUBSCRIBE V1'' net_ok,
      Packet sub2 ''SUBSCRIBE V1'' net_ok,
      Packet veh1 ''2024-01-01T00:00:00.000000000Z V1 53.344496 -6.259427''
        net_write_fails_first]) =
   Some [DialUDP sub1, Stderr SendFailed, DialUDP sub2,
         Datagram sub2 ''2024-01-01T00:00:00Z V1 53.344496 -6.259427 -1.000000'']"
proof -
  have t1: "take 256 ''SUBSCRIBE V1'' = ''SUBSCRIBE V1''"
    by (rule take_256_short) simp
  have t2: "take 256 ''2024-01-01T00:00:00.000000000Z V1 53.344496 -6.259427'' =
      ''2024-01-01T00:00:00.000000000Z V1 53.344496 -6.259427''"
    by (rule take_256_short) simp
  show ?thesis
    unfolding runServer_def serverLoop.simps t1 t2 events_of_def
    by (simp add: handlePacket_subscribe_V1 handlePacket_accepted[OF parse_report_example]
        registered_def history_def net_write_fails_first_def updateSpeed_spec spec_speed_single
        updateMessage_first)
qed

text \<open>
  C5 (as the code does it). From the empty server state, the datagram \<open>SUBSCRIBE V1\<close>
  from a subscriber followed by the position report
  \<open>2024-01-01T00:00:00.000000000Z V1 53.344496 -6.259427\<close> produces exactly one
  outbound datagram, addressed to that subscriber, provided the send succeeds. Its
  payload is \<open>2024-01-01T00:00:00Z V1 53.344496 -6.259427 -1.000000\<close>: the
  timestamp is printed again with the layout RFC3339Nano, which drops a fraction of
  zero nanoseconds.
\<close>

theorem subscribe_then_report:
  assumes "net_rep 0 = SendOk"
  shows "sent (runServer verbose
           [Packet sub ''SUBSCRIBE V1'' net_sub,
            Packet veh ''2024-01-01T00:00:00.000000000Z V1 53.344496 -6.259427'' net_rep]) =
         Some [(sub, ''2024-01-01T00:00:00Z V1 53.344496 -6.259427 -1.000000'')]"
  by (simp add: run_of_subscription_and_report[where net_rep = net_rep, OF assms] sent_def events_of_def)

theorem subscribe_then_report_witness:
  "net_ok 0 = SendOk \<and>
   sent (runServer False
           [Packet sub1 ''SUBSCRIBE V1'' net_ok,
            Packet veh1 ''2024-01-01T00:00:00.000000000Z V1 53.344496 -6.259427'' net_ok]) =
         Some [(sub1, ''2024-01-01T00:00:00Z V1 53.344496 -6.259427 -1.000000'')]"
proof -
  have ok: "net_ok 0 = SendOk" by (simp add: net_ok_def)
  from subscribe_then_report[where net_rep = net_ok, OF ok] ok show ?thesis by simp
qed

theorem subscribe_then_report_counterexample:
  "sent (runServer False
           [Packet sub1 ''SUBSCRIBE V1'' net_ok,
            Packet veh1 ''2024-01-01T00:00:00.000000000Z V1 53.344496 -6.259427'' net_ok]) \<noteq>
         Some [(sub1, ''2024-01-01T00:00:00.000000000Z V1 53.344496 -6.259427 -1.000000'')]"
proof -
  have ok: "net_ok 0 = SendOk" by (simp add: net_ok_def)
  show ?thesis
    by (simp add: run_of_subscription_and_report[where net_rep = net_ok, OF ok] sent_def events_of_def)
qed


section \<open>Position reports, malformed datagrams and classification\<close>

text \<open>
  C3. For every successfully parsed position report, the sample is appended to the
  agent's history (which is created if the agent had none), the subscriber registry
  is left as it was, and the dispatcher runs if and only if the agent has an entry in
  the registry: then the events are those of \<open>sendSubscriberUpdate\<close> on the grown
  history, and a socket is dialled exactly when the subscriber list is not empty. For
  an agent without subscribers the history grows and nothing else happens: no send and
  no diagnostic.
\<close>

theorem position_report_appends_then_dispatches:
  assumes "parse_report message = Some (vin, entry)"
  shows "\<exists>evs.
     handlePacket verbose source message fleet subs net =
       Some (fleet(vin \<mapsto> history fleet vin @ [entry]), subs,
             (if verbose then [Stdout source message] else []) @ evs)
     \<and> (case subs vin of
          None \<Rightarrow> evs = []
        | Some l \<Rightarrow> sendSubscriberUpdate l (history fleet vin @ [entry]) vin net = Some evs)
     \<and> (dials evs \<noteq> [] \<longleftrightarrow> registered subs vin \<noteq> [])"
proof (cases "subs vin")
  case None
  then show ?thesis
    by (simp add: handlePacket_accepted[OF assms] registered_def)
next
  case (Some l)
  then show ?thesis
    by (simp add: handlePacket_accepted[OF assms] registered_def sendSubscriberUpdate_nonempty
        sendLoop_dials_empty)
qed

theorem position_report_appends_then_dispatches_witness:
  "parse_report ''2024-01-01T00:00:00.000000000Z V1 53.344496 -6.259427'' =
     Some (''V1'', dublin new_year)
   \<and> handlePacket False veh1 ''2024-01-01T00:00:00.000000000Z V1 53.344496 -6.259427''
       Map.empty Map.empty net_ok =
     Some ([''V1'' \<mapsto> [dublin new_year]], Map.empty, [])"
proof -
  from position_report_appends_then_dispatches[OF parse_report_example,
      of False veh1 Map.empty Map.empty net_ok]
  have "handlePacket False veh1 ''2024-01-01T00:00:00.000000000Z V1 53.344496 -6.259427''
       Map.empty Map.empty net_ok =
     Some ([''V1'' \<mapsto> [dublin new_year]], Map.empty, [])"
    by (auto simp: history_def)
  with parse_report_example show ?thesis by simp
qed

lemma split_error_None_subscribe:
  assumes "strings_HasPrefix message ''SUBSCRIBE''" and "split_error message = None"
  shows "\<exists>cmd vin. strings_Split message CHR '' '' = [cmd, vin]"
proof -
  from assms have "length (strings_Split message CHR '' '') = 2"
    by (auto simp: split_error_def Let_def split: if_splits)
  then show ?thesis
    by (auto simp: length_Suc_conv numeral_2_eq_2)
qed

lemma split_error_None_report:
  assumes "\<not> strings_HasPrefix message ''SUBSCRIBE''" and "split_error message = None"
  shows "\<exists>p. parse_report message = Some p"
proof (cases "parse_report message")
  case None
  from parse_report_None[OF assms(1) None] assms(2) show ?thesis by simp
next
  case (Some p)
  then show ?thesis by blast
qed

lemma accepted_datagram_changes_state:
  assumes "split_error message = None"
  shows "\<exists>fleet' subs' evs.
     handlePacket verbose source message fleet subs net = Some (fleet', subs', evs) \<and>
     (fleet', subs') \<noteq> (fleet, subs)"
proof (cases "strings_HasPrefix message ''SUBSCRIBE''")
  case True
  from split_error_None_subscribe[OF True assms] obtain cmd vin where
    sp: "strings_Split message CHR '' '' = [cmd, vin]" by blast
  have "(subs(vin \<mapsto> registered subs vin @ [source])) vin \<noteq> subs vin"
    by (simp add: registered_def split: option.splits)
  then have "subs(vin \<mapsto> registered subs vin @ [source]) \<noteq> subs" by metis
  with True show ?thesis
    by (simp add: handlePacket_def handleSubscriberPacket_accepted[OF sp])
next
  case False
  from split_error_None_report[OF False assms] obtain vin entry where
    pr: "parse_report message = Some (vin, entry)" by auto
  have "(fleet(vin \<mapsto> history fleet vin @ [entry])) vin \<noteq> fleet vin"
    by (simp add: history_def split: option.splits)
  then have "fleet(vin \<mapsto> history fleet vin @ [entry]) \<noteq> fleet" by metis
  then show ?thesis
    by (simp add: handlePacket_accepted[OF pr])
qed

lemma wrong_token_count_split_error:
  assumes "tokens message = strings_Split message CHR '' ''"
    and "length (tokens message) \<noteq> (if strings_HasPrefix message ''SUBSCRIBE'' then 2 else 4)"
  shows "\<exists>d. split_error message = Some d"
  using assms
  by (cases "strings_HasPrefix message ''SUBSCRIBE''") (auto simp: split_error_def Let_def)












section \<open>Histories over a run\<close>

lemma history_upd: "history (fleet(w \<mapsto> h)) vin = (if vin = w then h else history fleet vin)"
  by (simp add: history_def)

lemma handlePacket_fleet_step:
  assumes short: "take 256 message = message"
  shows "\<exists>fleet' subs' evs.
     handlePacket verbose source message fleet subs net = Some (fleet', subs', evs) \<and>
     (\<forall>vin. history fleet' vin =
              history fleet vin @
              samples_for vin [Packet source message net'] \<and>
            (fleet vin \<noteq> None \<longrightarrow> fleet' vin \<noteq> None))"
proof (cases "strings_HasPrefix message ''SUBSCRIBE''")
  case True
  then show ?thesis
    by (simp add: handlePacket_def accepted_def short split: prod.splits)
next
  case False
  show ?thesis
  proof (cases "parse_report message")
    case None
    from parse_report_None[OF False None] obtain d where "split_error message = Some d" ..
    from handleVehiclePacket_rejected[OF False this] False None show ?thesis
      by (simp add: handlePacket_def accepted_def short)
  next
    case (Some p)
    obtain w entry where p: "p = (w, entry)" by (cases p)
    with Some have pr: "parse_report message = Some (w, entry)" by simp
    show ?thesis
      using False
      by (simp add: handlePacket_accepted[OF pr] accepted_def short pr history_upd)
  qed
qed

lemma samples_for_Cons:
  "samples_for vin (r # rs) = samples_for vin [r] @ samples_for vin rs"
  by (simp split: option.splits)

text \<open>
  C6. Over every sequence of reads, the server never panics, and the history of every
  agent at the end is its history at the start followed by exactly the samples of the
  successfully parsed position reports for that agent among the datagrams read, one
  sample per report, in order of arrival. So existing samples are neither changed nor
  removed, and an agent that has an entry in the fleet store keeps it.
\<close>

theorem histories_only_grow:
  "\<exists>fleet' subs' out'.
     serverLoop verbose rs (fleet, subs, out) = Some (fleet', subs', out') \<and>
     (\<forall>vin. history fleet' vin = history fleet vin @ samples_for vin rs \<and>
            (fleet vin \<noteq> None \<longrightarrow> fleet' vin \<noteq> None))"
proof (induction rs arbitrary: fleet subs out)
  case Nil
  show ?case by simp
next
  case (Cons r rs)
  show ?case
  proof (cases r)
    case ReadError
    from Cons.IH[of fleet subs "out @ [Stderr InvalidRead]"] show ?thesis
      by (simp add: ReadError accepted_def)
  next
    case (Packet addr payload net)
    have "take 256 (take 256 payload) = take 256 payload" by simp
    from handlePacket_fleet_step[OF this, of verbose addr fleet subs net net]
    obtain f1 s1 e1 where
      step: "handlePacket verbose addr (take 256 payload) fleet subs net = Some (f1, s1, e1)"
      and grow: "\<And>vin. history f1 vin =
          history fleet vin @ samples_for vin [Packet addr (take 256 payload) net]"
      and keep: "\<And>vin. fleet vin \<noteq> None \<Longrightarrow> f1 vin \<noteq> None"
      by blast
    have same: "\<And>vin. samples_for vin [Packet addr (take 256 payload) net] = samples_for vin [r]"
      by (simp add: Packet accepted_def)
    from Cons.IH[of f1 s1 "out @ e1"] obtain f2 s2 o2 where
      rest: "serverLoop verbose rs (f1, s1, out @ e1) = Some (f2, s2, o2)"
      and grow2: "\<And>vin. history f2 vin = history f1 vin @ samples_for vin rs"
      and keep2: "\<And>vin. f1 vin \<noteq> None \<Longrightarrow> f2 vin \<noteq> None"
      by blast
    have "serverLoop verbose (r # rs) (fleet, subs, out) = Some (f2, s2, o2)"
      by (simp add: Packet step rest)
    moreover have "\<And>vin. history f2 vin = history fleet vin @ samples_for vin (r # rs)"
      by (simp only: grow2 grow same samples_for_Cons[of _ r rs] append_assoc)
    moreover have "\<And>vin. fleet vin \<noteq> None \<Longrightarrow> f2 vin \<noteq> None"
      by (rule keep2, rule keep)
    ultimately show ?thesis by blast
  qed
qed

lemma samples_for_example:
  "samples_for ''V1''
     [Packet sub1 ''SUBSCRIBE V1'' net_ok, ReadError, Packet veh1 ''hello'' net_ok,
      Packet veh1 ''2024-01-01T00:00:00.000000000Z V1 53.344496 -6.259427'' net_ok] =
   [dublin new_year]"
proof -
  have t1: "take 256 ''SUBSCRIBE V1'' = ''SUBSCRIBE V1''"
    by (rule take_256_short) simp
  have t2: "take 256 ''2024-01-01T00:00:00.000000000Z V1 53.344496 -6.259427'' =
      ''2024-01-01T00:00:00.000000000Z V1 53.344496 -6.259427''"
    by (rule take_256_short) simp
  have t3: "take 256 ''hello'' = ''hello''"
    by (rule take_256_short) simp
  have h: "parse_report ''hello'' = None"
    by (simp add: parse_report_def strings_Split_def)
  have s: "strings_HasPrefix ''SUBSCRIBE V1'' ''SUBSCRIBE''"
    by (simp add: strings_HasPrefix_def)
  show ?thesis
    by (simp add: accepted_def t1 t2 t3 h s parse_report_example
        parse_report_not_subscribe[OF parse_report_example])
qed

theorem histories_only_grow_witness:
  "\<exists>fleet' subs' out'.
     serverLoop False
       [Packet sub1 ''SUBSCRIBE V1'' net_ok, ReadError, Packet veh1 ''hello'' net_ok,
        Packet veh1 ''2024-01-01T00:00:00.000000000Z V1 53.344496 -6.259427'' net_ok]
       (Map.empty, Map.empty, []) = Some (fleet', subs', out') \<and>
     history fleet' ''V1'' = [dublin new_year]"
proof -
  from histories_only_grow[of False
      "[Packet sub1 ''SUBSCRIBE V1'' net_ok, ReadError, Packet veh1 ''hello'' net_ok,
        Packet veh1 ''2024-01-01T00:00:00.000000000Z V1 53.344496 -6.259427'' net_ok]"
      Map.empty Map.empty "[]"]
  obtain f s o' where
    run: "serverLoop False
       [Packet sub1 ''SUBSCRIBE V1'' net_ok, ReadError, Packet veh1 ''hello'' net_ok,
        Packet veh1 ''2024-01-01T00:00:00.000000000Z V1 53.344496 -6.259427'' net_ok]
       (Map.empty, Map.empty, []) = Some (f, s, o')"
    and h: "history f ''V1'' = history Map.empty ''V1'' @ samples_for ''V1''
       [Packet sub1 ''SUBSCRIBE V1'' net_ok, ReadError, Packet veh1 ''hello'' net_ok,
        Packet veh1 ''2024-01-01T00:00:00.000000000Z V1 53.344496 -6.259427'' net_ok]"
    by blast
  from h have "history f ''V1'' = [dublin new_year]"
    by (simp only: samples_for_example) (simp add: history_def)
  with run show ?thesis by blast
qed


section \<open>Repeated subscriptions\<close>

lemma handlePacket_subscribe:
  assumes "CHR '' '' \<notin> set vin"
  shows "handlePacket verbose source (''SUBSCRIBE '' @ vin) fleet subs net =
     Some (fleet, subs(vin \<mapsto> registered subs vin @ [source]),
           if verbose then [Stdout source (''SUBSCRIBE '' @ vin)] else [])"
proof -
  have hs: "handleSubscriberPacket source (''SUBSCRIBE '' @ vin) subs =
      (subs(vin \<mapsto> registered subs vin @ [source]), [])"
    by (rule handleSubscriberPacket_accepted[OF strings_Split_subscribe[OF assms]])
  have pre: "strings_HasPrefix (''SUBSCRIBE '' @ vin) ''SUBSCRIBE''"
    by (simp add: strings_HasPrefix_def)
  show ?thesis
    unfolding handlePacket_def Let_def using pre hs by simp
qed

lemma registered_upd: "registered (subs(vin \<mapsto> l)) vin = l"
  by (simp add: registered_def)

text \<open>
  C9. Registration does not deduplicate. A datagram \<open>SUBSCRIBE vin\<close> appends its source
  to the subscriber list of \<open>vin\<close>, also when the source is already in it, so two such
  datagrams from one endpoint leave the endpoint in the list twice. A position report
  for \<open>vin\<close> that is then accepted sends, when every send succeeds, one datagram per
  entry of the list, in list order, all with the same payload: the endpoint gets two
  copies.
\<close>

theorem resubscription_duplicates:
  assumes "CHR '' '' \<notin> set vin"
    and "parse_report report = Some (vin, entry)"
    and "\<forall>i. net i = SendOk"
  shows "handlePacket verbose source (''SUBSCRIBE '' @ vin) fleet subs net_a =
           Some (fleet, subs(vin \<mapsto> registered subs vin @ [source]),
                 if verbose then [Stdout source (''SUBSCRIBE '' @ vin)] else [])
   \<and> handlePacket verbose source (''SUBSCRIBE '' @ vin) fleet
         (subs(vin \<mapsto> registered subs vin @ [source])) net_b =
           Some (fleet, subs(vin \<mapsto> registered subs vin @ [source, source]),
                 if verbose then [Stdout source (''SUBSCRIBE '' @ vin)] else [])
   \<and> sent (handlePacket verbose veh report fleet
         (subs(vin \<mapsto> registered subs vin @ [source, source])) net) =
       Some (map (\<lambda>a. (a, updateMessage entry vin (updateSpeed (history fleet vin @ [entry]))))
              (registered subs vin @ [source, source]))"
proof -
  have ok: "\<And>j. net j = SendOk" using assms(3) by simp
  have first: "handlePacket verbose source (''SUBSCRIBE '' @ vin) fleet subs net_a =
           Some (fleet, subs(vin \<mapsto> registered subs vin @ [source]),
                 if verbose then [Stdout source (''SUBSCRIBE '' @ vin)] else [])"
    by (rule handlePacket_subscribe[OF assms(1)])
  have second: "handlePacket verbose source (''SUBSCRIBE '' @ vin) fleet
         (subs(vin \<mapsto> registered subs vin @ [source])) net_b =
           Some (fleet, subs(vin \<mapsto> registered subs vin @ [source, source]),
                 if verbose then [Stdout source (''SUBSCRIBE '' @ vin)] else [])"
    using handlePacket_subscribe[OF assms(1), of verbose source fleet
        "subs(vin \<mapsto> registered subs vin @ [source])" net_b]
    by (simp add: registered_upd)
  have d: "datagrams ((if verbose then [Stdout veh report] else []) @ evs) = datagrams evs" for evs
    by simp
  have third: "sent (handlePacket verbose veh report fleet
         (subs(vin \<mapsto> registered subs vin @ [source, source])) net) =
       Some (map (\<lambda>a. (a, updateMessage entry vin (updateSpeed (history fleet vin @ [entry]))))
              (registered subs vin @ [source, source]))"
    by (simp add: handlePacket_accepted[OF assms(2)] sent_def events_of_def d
        sendLoop_all_ok[OF ok] del: datagrams.simps)
  from first second third show ?thesis by blast
qed

theorem resubscription_duplicates_witness:
  "handlePacket False sub1 ''SUBSCRIBE V1'' Map.empty Map.empty net_ok =
     Some (Map.empty, [''V1'' \<mapsto> [sub1]], [])
   \<and> handlePacket False sub1 ''SUBSCRIBE V1'' Map.empty [''V1'' \<mapsto> [sub1]] net_ok =
     Some (Map.empty, [''V1'' \<mapsto> [sub1, sub1]], [])
   \<and> sent (handlePacket False veh1 ''2024-01-01T00:00:00.000000000Z V1 53.344496 -6.259427''
       Map.empty [''V1'' \<mapsto> [sub1, sub1]] net_ok) =
     Some [(sub1, ''2024-01-01T00:00:00Z V1 53.344496 -6.259427 -1.000000''),
           (sub1, ''2024-01-01T00:00:00Z V1 53.344496 -6.259427 -1.000000'')]"
proof -
  have ns: "CHR '' '' \<notin> set ''V1''" by simp
  have ok: "\<forall>i. net_ok i = SendOk" by (simp add: net_ok_def)
  have r: "registered Map.empty ''V1'' = []" by (simp add: registered_def)
  from resubscription_duplicates[OF ns parse_report_example ok,
      of False sub1 Map.empty Map.empty net_ok net_ok veh1]
  show ?thesis
    by (simp add: r history_def updateSpeed_spec spec_speed_single updateMessage_first)
qed

section \<open>Gaps that are not positive\<close>

lemma f_div_by_zero:
  assumes "in_range_or_nan b x"
  shows "f_div x (Fin 0) = PInf \<or> f_div x (Fin 0) = NaN"
  using assms by (auto simp: in_range_or_nan_def)

lemma sample_distance_range: "in_range_or_nan (earthRadius * pi) (sample_distance prev cur)"
  by (simp add: sample_distance_def getDistance_range)

lemma gap_seconds_negative:
  assumes "gap_seconds prev cur < 0"
  shows "gap_seconds prev cur \<le> - (1 / 1000000000)"
proof -
  let ?n = "time_Sub (timestamp cur) (timestamp prev)"
  from assms have "?n < 0" by (simp add: gap_seconds_def)
  then have "?n \<le> - 1" by simp
  then have "real_of_int ?n \<le> - 1" by linarith
  then show ?thesis by (simp add: gap_seconds_def field_simps)
qed

lemma f_div_negative_gap:
  assumes "0 < d" and "d \<le> earthRadius * pi" and "g \<le> - (1 / 1000000000)"
  shows "\<exists>v. v < 0 \<and> f_div (Fin d) (Fin g) = Fin v"
proof -
  from assms(3) have g: "g < 0" by simp
  have "earthRadius * pi \<le> 6371009 * 4"
    unfolding earthRadius_def using pi_less_4 by simp
  with assms(2) have d: "d \<le> 25484036" by simp
  from assms(3) have "1 / 1000000000 \<le> \<bar>g\<bar>" by simp
  then have "1 / \<bar>g\<bar> \<le> 1000000000"
    using g by (simp add: field_simps)
  then have "d * (1 / \<bar>g\<bar>) \<le> 25484036 * 1000000000"
    using d assms(1) by (intro mult_mono) simp_all
  then have "\<bar>d / g\<bar> \<le> 25484036 * 1000000000"
    using assms(1) by (simp add: abs_divide)
  also have "\<dots> \<le> (10 :: real) ^ 300" by simp
  finally have "overflow (d / g) = Fin (d / g)" by (rule overflow_small)
  moreover have "d / g < 0" using assms(1) g by (simp add: divide_pos_neg)
  ultimately show ?thesis using g by simp
qed

lemma spec_speed_nonpositive_gap:
  assumes "2 \<le> length locations"
    and "gap_seconds (last (butlast locations)) (last locations) \<le> 0"
  shows "spec_speed locations =
           f_div (sample_distance (last (butlast locations)) (last locations))
             (Fin (gap_seconds (last (butlast locations)) (last locations)))"
  using assms by (simp add: spec_speed_def)

text \<open>
  C10 (as the code does it). The speed computation has no guard against gaps that are
  not positive. For a history of at least two samples whose last two timestamps give a
  gap of at most 0 seconds, the speed that is sent is the distance divided by the gap,
  not the sentinel branch: for a gap of 0 it is +Inf or NaN; for a negative gap it is
  negative whenever the distance is a positive number, and NaN when the distance is NaN
  (a coordinate that is NaN or infinite).
\<close>

theorem nonpositive_gap_speed:
  assumes "2 \<le> length locations"
    and "gap_seconds (last (butlast locations)) (last locations) \<le> 0"
  shows "sendSubscriberUpdate subs locations vin net =
           Some (sendLoop net
             (updateMessage (last locations) vin
                (f_div (sample_distance (last (butlast locations)) (last locations))
                   (Fin (gap_seconds (last (butlast locations)) (last locations))))) 0 subs)
   \<and> updateSpeed locations =
        f_div (sample_distance (last (butlast locations)) (last locations))
          (Fin (gap_seconds (last (butlast locations)) (last locations)))
   \<and> (gap_seconds (last (butlast locations)) (last locations) = 0 \<longrightarrow>
        updateSpeed locations = PInf \<or> updateSpeed locations = NaN)
   \<and> (gap_seconds (last (butlast locations)) (last locations) < 0 \<longrightarrow>
        (\<forall>d. sample_distance (last (butlast locations)) (last locations) = Fin d \<longrightarrow> 0 < d \<longrightarrow>
             (\<exists>v. v < 0 \<and> updateSpeed locations = Fin v)) \<and>
        (sample_distance (last (butlast locations)) (last locations) = NaN \<longrightarrow>
             updateSpeed locations = NaN))"
proof -
  let ?gap = "gap_seconds (last (butlast locations)) (last locations)"
  let ?dist = "sample_distance (last (butlast locations)) (last locations)"
  have speed: "updateSpeed locations = f_div ?dist (Fin ?gap)"
    by (simp only: updateSpeed_spec spec_speed_nonpositive_gap[OF assms])
  from assms(1) have ne: "locations \<noteq> []" by auto
  have send: "sendSubscriberUpdate subs locations vin net =
      Some (sendLoop net (updateMessage (last locations) vin (f_div ?dist (Fin ?gap))) 0 subs)"
    by (simp only: sendSubscriberUpdate_nonempty[OF ne] speed)
  have zero: "?gap = 0 \<longrightarrow> updateSpeed locations = PInf \<or> updateSpeed locations = NaN"
    using f_div_by_zero[OF sample_distance_range[of "last (butlast locations)" "last locations"]]
    by (auto simp: speed)
  have neg: "?gap < 0 \<longrightarrow>
        (\<forall>d. ?dist = Fin d \<longrightarrow> 0 < d \<longrightarrow> (\<exists>v. v < 0 \<and> updateSpeed locations = Fin v)) \<and>
        (?dist = NaN \<longrightarrow> updateSpeed locations = NaN)"
  proof (intro impI conjI allI)
    fix d assume g: "?gap < 0" and d: "?dist = Fin d" "0 < d"
    from sample_distance_range[of "last (butlast locations)" "last locations"] d(1)
    have "d \<le> earthRadius * pi" by (simp add: in_range_or_nan_def)
    from f_div_negative_gap[OF d(2) this gap_seconds_negative[OF g]]
    show "\<exists>v. v < 0 \<and> updateSpeed locations = Fin v" by (simp only: speed d(1))
  next
    assume "?dist = NaN"
    then show "updateSpeed locations = NaN" by (simp add: speed)
  qed
  from send speed zero neg show ?thesis by blast
qed

lemma gap_examples:
  "gap_seconds (dublin new_year) (dublin new_year) = 0"
  "gap_seconds (nowhere new_year_1s) (nowhere new_year) = - 1"
  by (simp_all add: gap_seconds_def dublin_def nowhere_def time_Sub_examples)

theorem nonpositive_gap_speed_witness:
  "2 \<le> length [dublin new_year, dublin new_year]
   \<and> gap_seconds (dublin new_year) (dublin new_year) = 0
   \<and> updateSpeed [dublin new_year, dublin new_year] = NaN
   \<and> sendSubscriberUpdate [sub1] [dublin new_year, dublin new_year] ''V1'' net_ok =
       Some [DialUDP sub1, Datagram sub1 ''2024-01-01T00:00:00Z V1 53.344496 -6.259427 NaN'']"
proof -
  have len: "2 \<le> length [dublin new_year, dublin new_year]" by simp
  have gap: "gap_seconds (last (butlast [dublin new_year, dublin new_year]))
      (last [dublin new_year, dublin new_year]) \<le> 0"
    by (simp add: gap_examples)
  have dist: "sample_distance (dublin new_year) (dublin new_year) = Fin 0"
    by (rule sample_distance_dublin)
  have msg: "updateMessage (dublin new_year) ''V1'' NaN =
      ''2024-01-01T00:00:00Z V1 53.344496 -6.259427 NaN''"
    by (simp add: updateMessage_def dublin_def format_new_year fmt_f6_dublin_lat
        fmt_f6_dublin_long del: fmt_f6.simps) simp
  from nonpositive_gap_speed[OF len gap, of "[sub1]" "''V1''" net_ok]
  show ?thesis
    by (simp add: gap_examples dist msg net_ok_def)
qed

lemma split_nowhere_reports:
  "strings_Split ''2024-01-01T00:00:01Z V1 NaN 0'' CHR '' '' =
     [''2024-01-01T00:00:01Z'', ''V1'', ''NaN'', ''0'']"
  "strings_Split ''2024-01-01T00:00:00Z V1 NaN 0'' CHR '' '' =
     [''2024-01-01T00:00:00Z'', ''V1'', ''NaN'', ''0'']"
  by (simp_all add: strings_Split_def)

lemma parse_nowhere_reports:
  "parse_report ''2024-01-01T00:00:01Z V1 NaN 0'' = Some (''V1'', nowhere new_year_1s)"
  "parse_report ''2024-01-01T00:00:00Z V1 NaN 0'' = Some (''V1'', nowhere new_year)"
  by (simp_all add: parse_report_def split_nowhere_reports parse_new_year_1s
      parse_new_year_short parse_NaN parse_zero nowhere_def)

lemma updateMessage_nowhere:
  "updateMessage (nowhere new_year_1s) ''V1'' (Fin (- 1)) =
     ''2024-01-01T00:00:01Z V1 NaN 0.000000 -1.000000''"
  "updateMessage (nowhere new_year) ''V1'' NaN = ''2024-01-01T00:00:00Z V1 NaN 0.000000 NaN''"
  by (simp_all add: updateMessage_def nowhere_def format_new_year format_new_year_1s
      fmt_f6_zero fmt_f6_sentinel del: fmt_f6.simps(1))

lemma spec_speed_nowhere: "spec_speed [nowhere new_year_1s, nowhere new_year] = NaN"
proof -
  have "sample_distance (nowhere new_year_1s) (nowhere new_year) = NaN"
    by (simp add: sample_distance_def nowhere_def getDistance_NaN)
  then show ?thesis
    by (simp add: spec_speed_def gap_examples)
qed

theorem negative_gap_speed_counterexample:
  "gap_seconds (nowhere new_year_1s) (nowhere new_year) = - 1
   \<and> sent (runServer False
       [Packet sub1 ''SUBSCRIBE V1'' net_ok,
        Packet veh1 ''2024-01-01T00:00:01Z V1 NaN 0'' net_ok,
        Packet veh1 ''2024-01-01T00:00:00Z V1 NaN 0'' net_ok]) =
     Some [(sub1, ''2024-01-01T00:00:01Z V1 NaN 0.000000 -1.000000''),
           (sub1, ''2024-01-01T00:00:00Z V1 NaN 0.000000 NaN'')]"
proof -
  have t1: "take 256 ''SUBSCRIBE V1'' = ''SUBSCRIBE V1''"
    by (rule take_256_short) simp
  have t2: "take 256 ''2024-01-01T00:00:01Z V1 NaN 0'' = ''2024-01-01T00:00:01Z V1 NaN 0''"
    by (rule take_256_short) simp
  have t3: "take 256 ''2024-01-01T00:00:00Z V1 NaN 0'' = ''2024-01-01T00:00:00Z V1 NaN 0''"
    by (rule take_256_short) simp
  have run: "sent (runServer False
       [Packet sub1 ''SUBSCRIBE V1'' net_ok,
        Packet veh1 ''2024-01-01T00:00:01Z V1 NaN 0'' net_ok,
        Packet veh1 ''2024-01-01T00:00:00Z V1 NaN 0'' net_ok]) =
     Some [(sub1, ''2024-01-01T00:00:01Z V1 NaN 0.000000 -1.000000''),
           (sub1, ''2024-01-01T00:00:00Z V1 NaN 0.000000 NaN'')]"
    unfolding runServer_def serverLoop.simps t1 t2 t3 sent_def events_of_def
    by (simp add: handlePacket_subscribe_V1 handlePacket_accepted[OF parse_nowhere_reports(1)]
        handlePacket_accepted[OF parse_nowhere_reports(2)]
        registered_def history_def updateSpeed_spec spec_speed_single spec_speed_nowhere
        updateMessage_nowhere net_ok_def)
  with gap_examples(2) show ?thesis by simp
qed


end
